theory Spec2Isabelle
  imports Main "HOL-Library.Sublist"
begin

section \<open>Data model of \<open>src/main.py\<close>\<close>

text \<open>
  The manager keeps a forest of \<open>Categoria\<close> objects, each owning a list of
  subcategories, a list of tasks and a FIFO queue of urgent tasks. \<open>Tareas\<close> objects are
  mutable and shared: the same object sits in a category's list and in the tuples of the two
  history stacks, and \<open>list.remove\<close> compares by identity (the class defines no
  \<open>__eq__\<close>). They are therefore kept in an explicit store, \<open>objetos\<close>, and
  every list holds addresses into it. A new object gets the next free address.

  \<open>Categoria\<close> objects are never shared between two parents and never removed, and
  every list of subcategories only grows at its end. A reference to a category is the list
  of indices that leads to it from \<open>self.categorias\<close>; it denotes the same object for
  the rest of the run.
\<close>

datatype fecha = Fecha (dia: nat) (mes: nat) (anio: nat)

record Tareas =
  tarea_id :: int
  titulo :: string
  descripcion :: string
  prioridad :: int
  fecha_vencimiento :: fecha

type_synonym ref_tarea = nat
type_synonym ref_categoria = "nat list"

datatype categoria =
  Categoria (categoria_id: int) (nombre: string) (subcategorias: "categoria list")
    (tareasUrgentes: "ref_tarea list") (tareas: "ref_tarea list")

text \<open>
  The tuples put on the history stacks: \<open>('agregar', tarea, categoria)\<close>,
  \<open>('eliminar', tarea, categoria)\<close> and
  \<open>('modificar', tarea_anterior, tarea, categoria)\<close>. \<open>tarea_anterior\<close> is a
  fresh copy that nothing else refers to and nothing ever writes to, so it is held by value.
\<close>

datatype accion =
  Agregar ref_tarea ref_categoria
| Eliminar ref_tarea ref_categoria
| Modificar Tareas ref_tarea ref_categoria

text \<open>
  \<open>LifoQueue.put\<close> appends to the end of the underlying list and \<open>get\<close> pops
  the end; \<open>Queue.put\<close> appends and \<open>get\<close> takes the front.
\<close>

record ManejadorTareas =
  categorias :: "categoria list"
  idCategoria :: int
  idTarea :: int
  historial_acciones :: "accion list"
  historial_deshacer :: "accion list"
  objetos :: "Tareas list"

definition manejador_inicial :: ManejadorTareas where
  "manejador_inicial =
     \<lparr>categorias = [], idCategoria = 1, idTarea = 1,
      historial_acciones = [], historial_deshacer = [], objetos = []\<rparr>"

text \<open>What an operation prints, by kind of message.\<close>

datatype salida =
  CategoriaAgregada
| ErrorCategoriaYaExiste
| SubcategoriaAgregada
| ErrorCategoriaNoExiste
| TareaAgregada
| TareaEliminada
| ErrorTareaNoExiste
| TareaModificada
| AccionDeshecha
| NoHayAccionesParaDeshacer
| AccionRehecha
| NoHayAccionesParaRehacer
| TareaUrgenteAnadida ref_tarea
| ProcesandoTareaUrgente ref_tarea
| NoHayTareasUrgentes
| TareasUrgentesEn "ref_tarea list"

text \<open>
  \<open>ValueError\<close> is what \<open>list.remove\<close> raises when the element is absent; no
  caller catches it. \<open>ReferenciaInvalida\<close> is not a Python exception: a Python reference
  always denotes an object, and the model answers with it when a history tuple's category
  reference leads nowhere, which no run from the initial manager ever meets
  (\<open>sin_referencia_invalida\<close> below).
\<close>

datatype excepcion = ValueError | ReferenciaInvalida

type_synonym resultado = "excepcion + (salida \<times> ManejadorTareas)"

subsection \<open>References to categories\<close>

fun deref_nodo :: "categoria \<Rightarrow> nat list \<Rightarrow> categoria option" where
  "deref_nodo c [] = Some c"
| "deref_nodo c (k # p) =
     (if k < length (subcategorias c) then deref_nodo (subcategorias c ! k) p else None)"

fun deref :: "categoria list \<Rightarrow> ref_categoria \<Rightarrow> categoria option" where
  "deref cs [] = None"
| "deref cs (k # p) = (if k < length cs then deref_nodo (cs ! k) p else None)"

fun escribir_nodo :: "(categoria \<Rightarrow> categoria) \<Rightarrow> nat list \<Rightarrow> categoria \<Rightarrow> categoria" where
  "escribir_nodo f [] c = f c"
| "escribir_nodo f (k # p) c =
     (if k < length (subcategorias c)
      then Categoria (categoria_id c) (nombre c)
             ((subcategorias c)[k := escribir_nodo f p (subcategorias c ! k)])
             (tareasUrgentes c) (tareas c)
      else c)"

fun escribir :: "(categoria \<Rightarrow> categoria) \<Rightarrow> ref_categoria \<Rightarrow> categoria list \<Rightarrow> categoria list" where
  "escribir f [] cs = cs"
| "escribir f (k # p) cs =
     (if k < length cs then cs[k := escribir_nodo f p (cs ! k)] else cs)"

definition con_tareas :: "(ref_tarea list \<Rightarrow> ref_tarea list) \<Rightarrow> categoria \<Rightarrow> categoria" where
  "con_tareas g c =
     Categoria (categoria_id c) (nombre c) (subcategorias c) (tareasUrgentes c) (g (tareas c))"

definition con_tareasUrgentes :: "(ref_tarea list \<Rightarrow> ref_tarea list) \<Rightarrow> categoria \<Rightarrow> categoria" where
  "con_tareasUrgentes g c =
     Categoria (categoria_id c) (nombre c) (subcategorias c) (g (tareasUrgentes c)) (tareas c)"

definition con_subcategorias :: "(categoria list \<Rightarrow> categoria list) \<Rightarrow> categoria \<Rightarrow> categoria" where
  "con_subcategorias g c =
     Categoria (categoria_id c) (nombre c) (g (subcategorias c)) (tareasUrgentes c) (tareas c)"

text \<open>A write that leaves the list of subcategories of a category as it is.\<close>

definition conserva_subcategorias :: "(categoria \<Rightarrow> categoria) \<Rightarrow> bool" where
  "conserva_subcategorias f = (\<forall>c. subcategorias (f c) = subcategorias c)"

text \<open>A write that also leaves the id and the name of a category as they are.\<close>

definition conserva_identidad :: "(categoria \<Rightarrow> categoria) \<Rightarrow> bool" where
  "conserva_identidad f =
     (\<forall>c. categoria_id (f c) = categoria_id c \<and> nombre (f c) = nombre c \<and>
          subcategorias (f c) = subcategorias c)"

subsection \<open>Lookup\<close>

text \<open>
  \<open>categoria.id == id or categoria.nombre == nombre\<close>, where an omitted argument is
  \<open>None\<close> and equals no id and no name.
\<close>

definition coincide :: "categoria \<Rightarrow> int option \<Rightarrow> string option \<Rightarrow> bool" where
  "coincide c i n = (Some (categoria_id c) = i \<or> Some (nombre c) = n)"

text \<open>
  \<open>encontrarCategoriaEnSubcategorias\<close> and its \<open>for\<close> loop over the subcategories;
  the loop carries the index of the subcategory it is at. The result is the object found: its
  reference, relative to where the search started, and its contents.
\<close>

fun encontrarCategoriaEnSubcategorias ::
      "categoria \<Rightarrow> int option \<Rightarrow> string option \<Rightarrow> (nat list \<times> categoria) option"
  and bucle_subcategorias ::
      "categoria list \<Rightarrow> nat \<Rightarrow> int option \<Rightarrow> string option \<Rightarrow> (nat list \<times> categoria) option"
where
  "encontrarCategoriaEnSubcategorias (Categoria ci cn subs urg ts) i n =
     (if coincide (Categoria ci cn subs urg ts) i n then Some ([], Categoria ci cn subs urg ts)
      else bucle_subcategorias subs 0 i n)"
| "bucle_subcategorias [] k i n = None"
| "bucle_subcategorias (s # ss) k i n =
     (case encontrarCategoriaEnSubcategorias s i n of
        Some (p, c) \<Rightarrow> Some (k # p, c)
      | None \<Rightarrow> bucle_subcategorias ss (Suc k) i n)"

text \<open>The outer loop of \<open>encontrarCategoria\<close> over \<open>self.categorias\<close>.\<close>

fun bucle_categorias ::
      "categoria list \<Rightarrow> nat \<Rightarrow> int option \<Rightarrow> string option \<Rightarrow> (ref_categoria \<times> categoria) option"
where
  "bucle_categorias [] k i n = None"
| "bucle_categorias (c # cs) k i n =
     (if coincide c i n then Some ([k], c)
      else (case bucle_subcategorias (subcategorias c) 0 i n of
              Some (p, d) \<Rightarrow> Some (k # p, d)
            | None \<Rightarrow> bucle_categorias cs (Suc k) i n))"

definition encontrarCategoria ::
      "ManejadorTareas \<Rightarrow> int option \<Rightarrow> string option \<Rightarrow> (ref_categoria \<times> categoria) option"
where
  "encontrarCategoria m i n = bucle_categorias (categorias m) 0 i n"

text \<open>
  \<open>next((tarea for tarea in categoria.tareas if tarea.id == idTarea), None)\<close>: the first
  task of the list with that id.
\<close>

definition buscar_tarea :: "Tareas list \<Rightarrow> ref_tarea list \<Rightarrow> int \<Rightarrow> ref_tarea option" where
  "buscar_tarea h ts i = List.find (\<lambda>a. tarea_id (h ! a) = i) ts"

subsection \<open>Operations of \<open>ManejadorTareas\<close>\<close>

definition agregarCategoria :: "string \<Rightarrow> ManejadorTareas \<Rightarrow> resultado" where
  "agregarCategoria nom m =
     (case encontrarCategoria m None (Some nom) of
        Some _ \<Rightarrow> Inr (ErrorCategoriaYaExiste, m)
      | None \<Rightarrow>
          Inr (CategoriaAgregada,
               m\<lparr>categorias := categorias m @ [Categoria (idCategoria m) nom [] [] []],
                 idCategoria := idCategoria m + 1\<rparr>))"

definition agregarSubcategoria :: "string \<Rightarrow> string \<Rightarrow> ManejadorTareas \<Rightarrow> resultado" where
  "agregarSubcategoria nom nombreCategoria m =
     (case encontrarCategoria m None (Some nombreCategoria) of
        Some (p, c) \<Rightarrow>
          Inr (SubcategoriaAgregada,
               m\<lparr>categorias :=
                    escribir (con_subcategorias (\<lambda>ss. ss @ [Categoria (idCategoria m) nom [] [] []]))
                      p (categorias m),
                 idCategoria := idCategoria m + 1\<rparr>)
      | None \<Rightarrow> Inr (ErrorCategoriaNoExiste, m))"

definition agregarTarea ::
      "string \<Rightarrow> string \<Rightarrow> int \<Rightarrow> fecha \<Rightarrow> string \<Rightarrow> ManejadorTareas \<Rightarrow> resultado" where
  "agregarTarea tit des pri fec categoria_nombre m =
     (case encontrarCategoria m None (Some categoria_nombre) of
        Some (p, c) \<Rightarrow>
          (let tarea = length (objetos m) in
           Inr (TareaAgregada,
                m\<lparr>objetos := objetos m @
                     [\<lparr>tarea_id = idTarea m, titulo = tit, descripcion = des,
                       prioridad = pri, fecha_vencimiento = fec\<rparr>],
                  categorias := escribir (con_tareas (\<lambda>ts. ts @ [tarea])) p (categorias m),
                  idTarea := idTarea m + 1,
                  historial_acciones := historial_acciones m @ [Agregar tarea p]\<rparr>))
      | None \<Rightarrow> Inr (ErrorCategoriaNoExiste, m))"

definition eliminarTarea :: "int \<Rightarrow> string \<Rightarrow> ManejadorTareas \<Rightarrow> resultado" where
  "eliminarTarea idT categoria_nombre m =
     (case encontrarCategoria m None (Some categoria_nombre) of
        Some (p, c) \<Rightarrow>
          (case buscar_tarea (objetos m) (tareas c) idT of
             Some tarea \<Rightarrow>
               Inr (TareaEliminada,
                    m\<lparr>categorias := escribir (con_tareas (remove1 tarea)) p (categorias m),
                      historial_acciones := historial_acciones m @ [Eliminar tarea p]\<rparr>)
           | None \<Rightarrow> Inr (ErrorTareaNoExiste, m))
      | None \<Rightarrow> Inr (ErrorCategoriaNoExiste, m))"

definition modificarTarea ::
      "int \<Rightarrow> string \<Rightarrow> string \<Rightarrow> int \<Rightarrow> fecha \<Rightarrow> string \<Rightarrow> ManejadorTareas \<Rightarrow> resultado" where
  "modificarTarea idT nuevo_titulo nueva_descripcion nueva_prioridad nueva_fecha categoria_nombre m =
     (case encontrarCategoria m None (Some categoria_nombre) of
        Some (p, c) \<Rightarrow>
          (case buscar_tarea (objetos m) (tareas c) idT of
             Some tarea \<Rightarrow>
               (let tarea_anterior = objetos m ! tarea in
                Inr (TareaModificada,
                     m\<lparr>objetos := (objetos m)[tarea :=
                          (objetos m ! tarea)\<lparr>titulo := nuevo_titulo,
                            descripcion := nueva_descripcion,
                            prioridad := nueva_prioridad,
                            fecha_vencimiento := nueva_fecha\<rparr>],
                       historial_acciones :=
                         historial_acciones m @ [Modificar tarea_anterior tarea p]\<rparr>))
           | None \<Rightarrow> Inr (ErrorTareaNoExiste, m))
      | None \<Rightarrow> Inr (ErrorCategoriaNoExiste, m))"

text \<open>
  The three branches shared by \<open>deshacer\<close> and \<open>rehacer\<close>:
  \<open>categoria.tareas.remove(tarea)\<close>, \<open>categoria.tareas.append(tarea)\<close> and the four
  assignments from \<open>tarea_anterior\<close>. Each gives the new forest and store, or raises.
\<close>

definition quitar_de ::
      "ref_tarea \<Rightarrow> ref_categoria \<Rightarrow> ManejadorTareas \<Rightarrow> excepcion + ManejadorTareas" where
  "quitar_de tarea p m =
     (case deref (categorias m) p of
        None \<Rightarrow> Inl ReferenciaInvalida
      | Some c \<Rightarrow>
          if tarea \<in> set (tareas c)
          then Inr (m\<lparr>categorias := escribir (con_tareas (remove1 tarea)) p (categorias m)\<rparr>)
          else Inl ValueError)"

definition anexar_a ::
      "ref_tarea \<Rightarrow> ref_categoria \<Rightarrow> ManejadorTareas \<Rightarrow> excepcion + ManejadorTareas" where
  "anexar_a tarea p m =
     (case deref (categorias m) p of
        None \<Rightarrow> Inl ReferenciaInvalida
      | Some c \<Rightarrow>
          Inr (m\<lparr>categorias := escribir (con_tareas (\<lambda>ts. ts @ [tarea])) p (categorias m)\<rparr>))"

definition copiar_campos :: "Tareas \<Rightarrow> ref_tarea \<Rightarrow> ManejadorTareas \<Rightarrow> ManejadorTareas" where
  "copiar_campos tarea_anterior tarea_modificada m =
     m\<lparr>objetos := (objetos m)[tarea_modificada :=
          (objetos m ! tarea_modificada)\<lparr>titulo := titulo tarea_anterior,
            descripcion := descripcion tarea_anterior,
            prioridad := prioridad tarea_anterior,
            fecha_vencimiento := fecha_vencimiento tarea_anterior\<rparr>]\<rparr>"

fun revertir :: "accion \<Rightarrow> ManejadorTareas \<Rightarrow> excepcion + ManejadorTareas" where
  "revertir (Agregar tarea p) m = quitar_de tarea p m"
| "revertir (Eliminar tarea p) m = anexar_a tarea p m"
| "revertir (Modificar tarea_anterior tarea_modificada p) m =
     Inr (copiar_campos tarea_anterior tarea_modificada m)"

fun reaplicar :: "accion \<Rightarrow> ManejadorTareas \<Rightarrow> excepcion + ManejadorTareas" where
  "reaplicar (Agregar tarea p) m = anexar_a tarea p m"
| "reaplicar (Eliminar tarea p) m = quitar_de tarea p m"
| "reaplicar (Modificar tarea_anterior tarea_modificada p) m =
     Inr (copiar_campos tarea_anterior tarea_modificada m)"

definition deshacer :: "ManejadorTareas \<Rightarrow> resultado" where
  "deshacer m =
     (if historial_acciones m \<noteq> []
      then (let ultima_accion = last (historial_acciones m);
                m1 = m\<lparr>historial_acciones := butlast (historial_acciones m)\<rparr>
            in case revertir ultima_accion m1 of
                 Inl e \<Rightarrow> Inl e
               | Inr m2 \<Rightarrow>
                   Inr (AccionDeshecha,
                        m2\<lparr>historial_deshacer := historial_deshacer m2 @ [ultima_accion]\<rparr>))
      else Inr (NoHayAccionesParaDeshacer, m))"

definition rehacer :: "ManejadorTareas \<Rightarrow> resultado" where
  "rehacer m =
     (if historial_deshacer m \<noteq> []
      then (let accion_deshacer = last (historial_deshacer m);
                m1 = m\<lparr>historial_deshacer := butlast (historial_deshacer m)\<rparr>
            in case reaplicar accion_deshacer m1 of
                 Inl e \<Rightarrow> Inl e
               | Inr m2 \<Rightarrow>
                   Inr (AccionRehecha,
                        m2\<lparr>historial_acciones := historial_acciones m2 @ [accion_deshacer]\<rparr>))
      else Inr (NoHayAccionesParaRehacer, m))"

definition agregarTareaUrgente ::
      "string \<Rightarrow> string \<Rightarrow> int \<Rightarrow> fecha \<Rightarrow> string \<Rightarrow> ManejadorTareas \<Rightarrow> resultado" where
  "agregarTareaUrgente tit des pri fec categoria_nombre m =
     (case encontrarCategoria m None (Some categoria_nombre) of
        Some (p, c) \<Rightarrow>
          (let tarea = length (objetos m) in
           Inr (TareaUrgenteAnadida tarea,
                m\<lparr>objetos := objetos m @
                     [\<lparr>tarea_id = idTarea m, titulo = tit, descripcion = des,
                       prioridad = pri, fecha_vencimiento = fec\<rparr>],
                  categorias :=
                    escribir (con_tareasUrgentes (\<lambda>q. q @ [tarea])) p (categorias m),
                  idTarea := idTarea m + 1\<rparr>))
      | None \<Rightarrow> Inr (ErrorCategoriaNoExiste, m))"

definition procesarTareaUrgente :: "string \<Rightarrow> ManejadorTareas \<Rightarrow> resultado" where
  "procesarTareaUrgente categoria_nombre m =
     (case encontrarCategoria m None (Some categoria_nombre) of
        Some (p, c) \<Rightarrow>
          (case tareasUrgentes c of
             tarea # _ \<Rightarrow>
               Inr (ProcesandoTareaUrgente tarea,
                    m\<lparr>categorias := escribir (con_tareasUrgentes tl) p (categorias m)\<rparr>)
           | [] \<Rightarrow> Inr (NoHayTareasUrgentes, m))
      | None \<Rightarrow> Inr (ErrorCategoriaNoExiste, m))"

definition mostrarTareasUrgentes :: "string \<Rightarrow> ManejadorTareas \<Rightarrow> resultado" where
  "mostrarTareasUrgentes categoria_nombre m =
     (case encontrarCategoria m None (Some categoria_nombre) of
        Some (p, c) \<Rightarrow>
          (if tareasUrgentes c \<noteq> [] then Inr (TareasUrgentesEn (tareasUrgentes c), m)
           else Inr (NoHayTareasUrgentes, m))
      | None \<Rightarrow> Inr (ErrorCategoriaNoExiste, m))"

subsection \<open>Sequences of calls\<close>

datatype operacion =
  AgregarCategoria string
| AgregarSubcategoria string string
| AgregarTarea string string int fecha string
| EliminarTarea int string
| ModificarTarea int string string int fecha string
| Deshacer
| Rehacer
| AgregarTareaUrgente string string int fecha string
| ProcesarTareaUrgente string
| MostrarTareasUrgentes string

fun ejecutar :: "operacion \<Rightarrow> ManejadorTareas \<Rightarrow> resultado" where
  "ejecutar (AgregarCategoria n) m = agregarCategoria n m"
| "ejecutar (AgregarSubcategoria n c) m = agregarSubcategoria n c m"
| "ejecutar (AgregarTarea t d p f c) m = agregarTarea t d p f c m"
| "ejecutar (EliminarTarea i c) m = eliminarTarea i c m"
| "ejecutar (ModificarTarea i t d p f c) m = modificarTarea i t d p f c m"
| "ejecutar Deshacer m = deshacer m"
| "ejecutar Rehacer m = rehacer m"
| "ejecutar (AgregarTareaUrgente t d p f c) m = agregarTareaUrgente t d p f c m"
| "ejecutar (ProcesarTareaUrgente c) m = procesarTareaUrgente c m"
| "ejecutar (MostrarTareasUrgentes c) m = mostrarTareasUrgentes c m"

text \<open>
  A run of calls from a given manager: the messages printed and the final manager, or the
  exception that ended the process.
\<close>

fun correr :: "operacion list \<Rightarrow> ManejadorTareas \<Rightarrow> excepcion + (salida list \<times> ManejadorTareas)" where
  "correr [] m = Inr ([], m)"
| "correr (x # xs) m =
     (case ejecutar x m of
        Inl e \<Rightarrow> Inl e
      | Inr (s, m1) \<Rightarrow>
          (case correr xs m1 of
             Inl e \<Rightarrow> Inl e
           | Inr (ss, m2) \<Rightarrow> Inr (s # ss, m2)))"

inductive alcanzable :: "ManejadorTareas \<Rightarrow> bool" where
  inicial: "alcanzable manejador_inicial"
| paso: "alcanzable m \<Longrightarrow> ejecutar x m = Inr (s, m1) \<Longrightarrow> alcanzable m1"

subsection \<open>The forest in depth-first pre-order\<close>

text \<open>
  Every category of a forest with its reference: a category first, then the subtrees of its
  subcategories from left to right. This is the order the specification gives for the lookup;
  it is defined on its own so that the lookup of the code can be compared with it.
\<close>

fun preorden_nodo :: "categoria \<Rightarrow> (nat list \<times> categoria) list"
  and preorden_lista :: "categoria list \<Rightarrow> nat \<Rightarrow> (nat list \<times> categoria) list"
where
  "preorden_nodo (Categoria ci cn subs urg ts) =
     ([], Categoria ci cn subs urg ts) # preorden_lista subs 0"
| "preorden_lista [] k = []"
| "preorden_lista (s # ss) k =
     map (\<lambda>(p, c). (k # p, c)) (preorden_nodo s) @ preorden_lista ss (Suc k)"

definition preorden :: "categoria list \<Rightarrow> (ref_categoria \<times> categoria) list" where
  "preorden cs = preorden_lista cs 0"

definition primera_coincidencia ::
      "categoria list \<Rightarrow> int option \<Rightarrow> string option \<Rightarrow> (ref_categoria \<times> categoria) option" where
  "primera_coincidencia cs i n = List.find (\<lambda>(p, c). coincide c i n) (preorden cs)"

definition nombres :: "categoria list \<Rightarrow> string list" where
  "nombres cs = map (\<lambda>(p, c). nombre c) (preorden cs)"

text \<open>The fields of a category other than its subcategories.\<close>

definition propios :: "categoria \<Rightarrow> int \<times> string \<times> ref_tarea list \<times> ref_tarea list" where
  "propios c = (categoria_id c, nombre c, tareasUrgentes c, tareas c)"

text \<open>The task list and the urgent queue of the category a reference denotes.\<close>

definition tareas_de :: "ManejadorTareas \<Rightarrow> ref_categoria \<Rightarrow> ref_tarea list option" where
  "tareas_de m p = map_option tareas (deref (categorias m) p)"

definition urgentes_de :: "ManejadorTareas \<Rightarrow> ref_categoria \<Rightarrow> ref_tarea list option" where
  "urgentes_de m p = map_option tareasUrgentes (deref (categorias m) p)"

definition propios_de :: "ManejadorTareas \<Rightarrow> ref_categoria \<Rightarrow> (int \<times> string \<times> ref_tarea list \<times> ref_tarea list) option" where
  "propios_de m p = map_option propios (deref (categorias m) p)"

subsection \<open>The urgent queue, as the specification describes it\<close>

text \<open>
  \<open>salidas\<close> is what a run has printed when it ends or is stopped by an exception.
  \<open>de_historial\<close> are the messages of \<open>deshacer\<close> and \<open>rehacer\<close>.
\<close>

fun salidas :: "operacion list \<Rightarrow> ManejadorTareas \<Rightarrow> salida list" where
  "salidas [] m = []"
| "salidas (x # xs) m =
     (case ejecutar x m of
        Inl e \<Rightarrow> []
      | Inr (s, m1) \<Rightarrow> s # salidas xs m1)"

fun de_historial :: "salida \<Rightarrow> bool" where
  "de_historial AccionDeshecha = True"
| "de_historial NoHayAccionesParaDeshacer = True"
| "de_historial AccionRehecha = True"
| "de_historial NoHayAccionesParaRehacer = True"
| "de_historial _ = False"

text \<open>
  A script on one category name: calls of \<open>deshacer\<close> and \<open>rehacer\<close>, and urgent
  tasks added to and processed from the category of that name.
\<close>

fun en_guion :: "string \<Rightarrow> operacion \<Rightarrow> bool" where
  "en_guion nom Deshacer = True"
| "en_guion nom Rehacer = True"
| "en_guion nom (AgregarTareaUrgente t d pr f c) = (c = nom)"
| "en_guion nom (ProcesarTareaUrgente c) = (c = nom)"
| "en_guion nom _ = False"

text \<open>
  What a first-in-first-out queue answers to such a script, from the queue \<open>q\<close> and with
  \<open>n\<close> the next free address: a task added goes to the tail, a task processed is the head,
  and undo and redo do nothing to the queue.
\<close>

fun cola_esperada :: "operacion list \<Rightarrow> ref_tarea list \<Rightarrow> nat \<Rightarrow> salida list" where
  "cola_esperada [] q n = []"
| "cola_esperada (AgregarTareaUrgente t d pr f c # xs) q n =
     TareaUrgenteAnadida n # cola_esperada xs (q @ [n]) (Suc n)"
| "cola_esperada (ProcesarTareaUrgente c # xs) q n =
     (case q of
        [] \<Rightarrow> NoHayTareasUrgentes # cola_esperada xs [] n
      | a # r \<Rightarrow> ProcesandoTareaUrgente a # cola_esperada xs r n)"
| "cola_esperada (x # xs) q n = cola_esperada xs q n"

text \<open>
  The objects such a script adds to the store, with \<open>i\<close> the next task id: one for each
  urgent task added, with the data given and the ids in the order of the calls.
\<close>

fun tareas_esperadas :: "operacion list \<Rightarrow> int \<Rightarrow> Tareas list" where
  "tareas_esperadas [] i = []"
| "tareas_esperadas (AgregarTareaUrgente t d pr f c # xs) i =
     \<lparr>tarea_id = i, titulo = t, descripcion = d, prioridad = pr, fecha_vencimiento = f\<rparr>
       # tareas_esperadas xs (i + 1)"
| "tareas_esperadas (x # xs) i = tareas_esperadas xs i"

text \<open>
  What such a script depends on in a manager: where the lookup of the name leads, the urgent
  queue there, and the next free address.
\<close>

definition vista :: "ManejadorTareas \<Rightarrow> string \<Rightarrow> ref_categoria \<Rightarrow> ref_tarea list \<Rightarrow> nat \<Rightarrow> bool" where
  "vista m nom p q n =
     (map_option fst (encontrarCategoria m None (Some nom)) = Some p \<and>
      urgentes_de m p = Some q \<and> length (objetos m) = n)"

subsection \<open>What holds of every manager a run can reach\<close>

text \<open>
  The addresses in the task lists are addresses of objects of the store; the ids of the
  objects of the store, in the order the objects were made, go up and stay below the counter;
  the task and the category of every tuple on the two stacks are an object of the store and a
  category of the forest.
\<close>

fun categoria_de :: "accion \<Rightarrow> ref_categoria" where
  "categoria_de (Agregar a p) = p"
| "categoria_de (Eliminar a p) = p"
| "categoria_de (Modificar t a p) = p"

fun tarea_de :: "accion \<Rightarrow> ref_tarea" where
  "tarea_de (Agregar a p) = a"
| "tarea_de (Eliminar a p) = a"
| "tarea_de (Modificar t a p) = a"

definition acotado :: "nat \<Rightarrow> categoria list \<Rightarrow> bool" where
  "acotado k cs = (\<forall>p c. deref cs p = Some c \<longrightarrow> (\<forall>a\<in>set (tareas c). a < k))"

definition ids_crecientes :: "ManejadorTareas \<Rightarrow> bool" where
  "ids_crecientes m =
     (0 < idTarea m \<and> sorted_wrt (<) (map tarea_id (objetos m)) \<and>
      (\<forall>t\<in>set (objetos m). 0 < tarea_id t \<and> tarea_id t < idTarea m))"

definition referencias_validas :: "ManejadorTareas \<Rightarrow> bool" where
  "referencias_validas m =
     (\<forall>r\<in>set (historial_acciones m) \<union> set (historial_deshacer m).
        tarea_de r < length (objetos m) \<and> deref (categorias m) (categoria_de r) \<noteq> None)"

definition invariante :: "ManejadorTareas \<Rightarrow> bool" where
  "invariante m =
     (acotado (length (objetos m)) (categorias m) \<and> ids_crecientes m \<and> referencias_validas m)"

text \<open>
  What a step of undo or redo keeps, between the manager it starts from and the one it
  gives: the bounds above, the number of objects, the two stacks, and every category.
\<close>

definition conservado :: "ManejadorTareas \<Rightarrow> ManejadorTareas \<Rightarrow> bool" where
  "conservado m m2 =
     (acotado (length (objetos m2)) (categorias m2) \<and> ids_crecientes m2 \<and>
      length (objetos m2) = length (objetos m) \<and>
      historial_acciones m2 = historial_acciones m \<and>
      historial_deshacer m2 = historial_deshacer m \<and>
      (\<forall>p c0. deref (categorias m) p = Some c0 \<longrightarrow> (\<exists>c'. deref (categorias m2) p = Some c')))"

subsection \<open>Managers used as examples\<close>

text \<open>
  \<open>ej_report\<close> is the task Report; \<open>ej_work\<close> is the manager after
  \<open>agregarCategoria('Work')\<close>, \<open>ej_work_report\<close> the one after
  \<open>agregarTarea('Report', 'Q3', 1, 01/01/2030, 'Work')\<close> on it, and
  \<open>ej_work_deshecho\<close> the one after \<open>deshacer()\<close> on that. \<open>ej_bosque\<close> has
  the root Work with the subcategory Urgent, and the root Home.
\<close>

definition ej_report :: Tareas where
  "ej_report =
     \<lparr>tarea_id = 1, titulo = ''Report'', descripcion = ''Q3'', prioridad = 1,
      fecha_vencimiento = Fecha 1 1 2030\<rparr>"

definition ej_work :: ManejadorTareas where
  "ej_work =
     \<lparr>categorias = [Categoria 1 ''Work'' [] [] []], idCategoria = 2, idTarea = 1,
      historial_acciones = [], historial_deshacer = [], objetos = []\<rparr>"

definition ej_work_report :: ManejadorTareas where
  "ej_work_report =
     \<lparr>categorias = [Categoria 1 ''Work'' [] [] [0]], idCategoria = 2, idTarea = 2,
      historial_acciones = [Agregar 0 [0]], historial_deshacer = [], objetos = [ej_report]\<rparr>"

definition ej_work_deshecho :: ManejadorTareas where
  "ej_work_deshecho =
     \<lparr>categorias = [Categoria 1 ''Work'' [] [] []], idCategoria = 2, idTarea = 2,
      historial_acciones = [], historial_deshacer = [Agregar 0 [0]], objetos = [ej_report]\<rparr>"

definition ej_bosque :: ManejadorTareas where
  "ej_bosque =
     \<lparr>categorias = [Categoria 1 ''Work'' [Categoria 2 ''Urgent'' [] [] []] [] [],
                    Categoria 3 ''Home'' [] [] []],
      idCategoria = 4, idTarea = 1,
      historial_acciones = [], historial_deshacer = [], objetos = []\<rparr>"

text \<open>
  \<open>ej_work_dos\<close> is \<open>ej_work_report\<close> after
  \<open>agregarTarea('Email', 'Inbox', 3, 01/01/2025, 'Work')\<close>. \<open>ej_cola\<close> has Report in
  the list of Work, and Email and Call, in this order, in the urgent queue of its
  subcategory Urgent.
\<close>

definition ej_email :: Tareas where
  "ej_email =
     \<lparr>tarea_id = 2, titulo = ''Email'', descripcion = ''Inbox'', prioridad = 3,
      fecha_vencimiento = Fecha 1 1 2025\<rparr>"

definition ej_call :: Tareas where
  "ej_call =
     \<lparr>tarea_id = 3, titulo = ''Call'', descripcion = ''Client'', prioridad = 2,
      fecha_vencimiento = Fecha 15 6 2026\<rparr>"

definition ej_work_dos :: ManejadorTareas where
  "ej_work_dos =
     \<lparr>categorias = [Categoria 1 ''Work'' [] [] [0, 1]], idCategoria = 2, idTarea = 3,
      historial_acciones = [Agregar 0 [0], Agregar 1 [0]], historial_deshacer = [],
      objetos = [ej_report, ej_email]\<rparr>"

definition ej_cola :: ManejadorTareas where
  "ej_cola =
     \<lparr>categorias = [Categoria 1 ''Work'' [Categoria 2 ''Urgent'' [] [1, 2] []] [] [0],
                    Categoria 3 ''Home'' [] [] []],
      idCategoria = 4, idTarea = 4,
      historial_acciones = [Agregar 0 [0]], historial_deshacer = [],
      objetos = [ej_report, ej_email, ej_call]\<rparr>"

section \<open>Evaluating runs\<close>

lemmas operaciones_defs =
  manejador_inicial_def agregarCategoria_def agregarSubcategoria_def agregarTarea_def
  eliminarTarea_def modificarTarea_def deshacer_def rehacer_def agregarTareaUrgente_def
  procesarTareaUrgente_def mostrarTareasUrgentes_def encontrarCategoria_def coincide_def
  buscar_tarea_def quitar_de_def anexar_a_def copiar_campos_def con_tareas_def
  con_tareasUrgentes_def con_subcategorias_def Let_def

lemmas ejemplos_defs =
  ej_report_def ej_email_def ej_call_def ej_work_def ej_work_report_def ej_work_deshecho_def
  ej_work_dos_def ej_bosque_def ej_cola_def

section \<open>Modify, undo, redo\<close>

text \<open>
  C1. After a successful \<open>modificarTarea\<close>, \<open>deshacer\<close> puts the four fields of the
  task back to their values before the modification, and a following \<open>rehacer\<close> should
  put them to their values after it. The code does the first and not the second: the
  \<open>'modificar'\<close> branch of \<open>rehacer\<close> assigns from \<open>tarea_anterior\<close>, as the branch
  of \<open>deshacer\<close> does. Task 1 is created as Report/Q3/1/2030 and modified to
  Memo/Q4/2/2031; the first run below shows the modification in the store, the second shows
  the store after undo and redo, where the task is Report/Q3/1/2030 again.
\<close>

theorem rehacer_modificar_restaura_anterior:
  "map_sum id (\<lambda>r. objetos (snd r))
     (correr [AgregarCategoria ''Work'',
              AgregarTarea ''Report'' ''Q3'' 1 (Fecha 1 1 2030) ''Work'',
              ModificarTarea 1 ''Memo'' ''Q4'' 2 (Fecha 2 2 2031) ''Work'']
        manejador_inicial)
   = Inr [\<lparr>tarea_id = 1, titulo = ''Memo'', descripcion = ''Q4'', prioridad = 2,
           fecha_vencimiento = Fecha 2 2 2031\<rparr>]
 \<and> map_sum id (\<lambda>r. objetos (snd r))
     (correr [AgregarCategoria ''Work'',
              AgregarTarea ''Report'' ''Q3'' 1 (Fecha 1 1 2030) ''Work'',
              ModificarTarea 1 ''Memo'' ''Q4'' 2 (Fecha 2 2 2031) ''Work'',
              Deshacer, Rehacer]
        manejador_inicial)
   = Inr [\<lparr>tarea_id = 1, titulo = ''Report'', descripcion = ''Q3'', prioridad = 1,
           fecha_vencimiento = Fecha 1 1 2030\<rparr>]"
  by (simp add: operaciones_defs)

section \<open>Exceptions\<close>

text \<open>
  C2. No sequence of core operations should end in an unhandled exception, also when undo or
  redo meets a tuple made stale by later calls. The code does raise: after a task is removed,
  the removal undone, and the task removed again, the redo stack still holds the first
  removal, and \<open>rehacer\<close> calls \<open>categoria.tareas.remove(tarea)\<close> on a list that no
  longer holds the task. \<open>eliminarTarea\<close> looks the task up before it removes it;
  \<open>rehacer\<close> and \<open>deshacer\<close> do not.
\<close>

theorem rehacer_eliminar_obsoleto_lanza_ValueError:
  "correr [AgregarCategoria ''Work'',
           AgregarTarea ''Report'' ''Q3'' 1 (Fecha 1 1 2030) ''Work'',
           EliminarTarea 1 ''Work'',
           Deshacer,
           EliminarTarea 1 ''Work'',
           Rehacer]
     manejador_inicial
   = Inl ValueError"
  by (simp add: operaciones_defs)

section \<open>Names of categories\<close>

text \<open>
  C3. No two categories of the forest should have the same name, and
  \<open>agregarSubcategoria\<close> should keep it so. \<open>agregarCategoria\<close> refuses a name that
  any category of the forest has; \<open>agregarSubcategoria\<close> makes no such check, and a
  subcategory named as its own parent is accepted.
\<close>

theorem agregarSubcategoria_repite_nombre:
  "correr [AgregarCategoria ''Work'', AgregarSubcategoria ''Work'' ''Work''] manejador_inicial
   = Inr ([CategoriaAgregada, SubcategoriaAgregada],
          \<lparr>categorias = [Categoria 1 ''Work'' [Categoria 2 ''Work'' [] [] []] [] []],
            idCategoria = 3, idTarea = 1, historial_acciones = [],
            historial_deshacer = [], objetos = []\<rparr>)
   \<and> nombres [Categoria 1 ''Work'' [Categoria 2 ''Work'' [] [] []] [] []] = [''Work'', ''Work'']"
  by (simp add: operaciones_defs nombres_def preorden_def)

section \<open>The two history stacks\<close>

lemma agregarTarea_historial:
  "agregarTarea t d pr f c m = Inr (TareaAgregada, m') \<Longrightarrow>
     (\<exists>r. historial_acciones m' = historial_acciones m @ [r]) \<and>
     historial_deshacer m' = historial_deshacer m"
  by (auto simp: agregarTarea_def Let_def split: option.splits)

lemma eliminarTarea_historial:
  "eliminarTarea i c m = Inr (TareaEliminada, m') \<Longrightarrow>
     (\<exists>r. historial_acciones m' = historial_acciones m @ [r]) \<and>
     historial_deshacer m' = historial_deshacer m"
  by (auto simp: eliminarTarea_def Let_def split: option.splits)

lemma modificarTarea_historial:
  "modificarTarea i t d pr f c m = Inr (TareaModificada, m') \<Longrightarrow>
     (\<exists>r. historial_acciones m' = historial_acciones m @ [r]) \<and>
     historial_deshacer m' = historial_deshacer m"
  by (auto simp: modificarTarea_def Let_def split: option.splits)

lemma revertir_historial:
  "revertir a m = Inr m' \<Longrightarrow>
     historial_acciones m' = historial_acciones m \<and> historial_deshacer m' = historial_deshacer m"
  by (cases a) (auto simp: quitar_de_def anexar_a_def copiar_campos_def split: option.splits if_splits)

lemma reaplicar_historial:
  "reaplicar a m = Inr m' \<Longrightarrow>
     historial_acciones m' = historial_acciones m \<and> historial_deshacer m' = historial_deshacer m"
  by (cases a) (auto simp: quitar_de_def anexar_a_def copiar_campos_def split: option.splits if_splits)

lemma deshacer_historial:
  "deshacer m = Inr (AccionDeshecha, m') \<Longrightarrow>
     \<exists>r. historial_acciones m = historial_acciones m' @ [r] \<and>
         historial_deshacer m' = historial_deshacer m @ [r]"
  by (auto simp: deshacer_def Let_def split: if_splits sum.splits dest!: revertir_historial)

lemma rehacer_historial:
  "rehacer m = Inr (AccionRehecha, m') \<Longrightarrow>
     \<exists>r. historial_deshacer m = historial_deshacer m' @ [r] \<and>
         historial_acciones m' = historial_acciones m @ [r]"
  by (auto simp: rehacer_def Let_def split: if_splits sum.splits dest!: reaplicar_historial)

text \<open>
  C4. From any manager: a successful \<open>agregarTarea\<close>, \<open>eliminarTarea\<close> or
  \<open>modificarTarea\<close> puts exactly one tuple on \<open>historial_acciones\<close> and leaves
  \<open>historial_deshacer\<close> as it was (it is never emptied); a successful \<open>deshacer\<close>
  takes the top tuple off \<open>historial_acciones\<close> and puts that same tuple on
  \<open>historial_deshacer\<close>; a successful \<open>rehacer\<close> does the reverse.
\<close>

theorem historiales_emparejados:
  "(agregarTarea t d pr f c m = Inr (TareaAgregada, m') \<longrightarrow>
      (\<exists>r. historial_acciones m' = historial_acciones m @ [r]) \<and>
      historial_deshacer m' = historial_deshacer m)
 \<and> (eliminarTarea i c m = Inr (TareaEliminada, m') \<longrightarrow>
      (\<exists>r. historial_acciones m' = historial_acciones m @ [r]) \<and>
      historial_deshacer m' = historial_deshacer m)
 \<and> (modificarTarea i t d pr f c m = Inr (TareaModificada, m') \<longrightarrow>
      (\<exists>r. historial_acciones m' = historial_acciones m @ [r]) \<and>
      historial_deshacer m' = historial_deshacer m)
 \<and> (deshacer m = Inr (AccionDeshecha, m') \<longrightarrow>
      (\<exists>r. historial_acciones m = historial_acciones m' @ [r] \<and>
           historial_deshacer m' = historial_deshacer m @ [r]))
 \<and> (rehacer m = Inr (AccionRehecha, m') \<longrightarrow>
      (\<exists>r. historial_deshacer m = historial_deshacer m' @ [r] \<and>
           historial_acciones m' = historial_acciones m @ [r]))"
proof (intro conjI impI)
  assume "agregarTarea t d pr f c m = Inr (TareaAgregada, m')"
  then show "\<exists>r. historial_acciones m' = historial_acciones m @ [r]"
    and "historial_deshacer m' = historial_deshacer m"
    by (simp_all add: agregarTarea_historial)
next
  assume "eliminarTarea i c m = Inr (TareaEliminada, m')"
  then show "\<exists>r. historial_acciones m' = historial_acciones m @ [r]"
    and "historial_deshacer m' = historial_deshacer m"
    by (simp_all add: eliminarTarea_historial)
next
  assume "modificarTarea i t d pr f c m = Inr (TareaModificada, m')"
  then show "\<exists>r. historial_acciones m' = historial_acciones m @ [r]"
    and "historial_deshacer m' = historial_deshacer m"
    by (simp_all add: modificarTarea_historial)
next
  assume "deshacer m = Inr (AccionDeshecha, m')"
  then show "\<exists>r. historial_acciones m = historial_acciones m' @ [r] \<and>
      historial_deshacer m' = historial_deshacer m @ [r]"
    by (rule deshacer_historial)
next
  assume "rehacer m = Inr (AccionRehecha, m')"
  then show "\<exists>r. historial_deshacer m = historial_deshacer m' @ [r] \<and>
      historial_acciones m' = historial_acciones m @ [r]"
    by (rule rehacer_historial)
qed

theorem historiales_emparejados_testigo:
  "(agregarTarea ''Report'' ''Q3'' 1 (Fecha 1 1 2030) ''Work'' ej_work = Inr (TareaAgregada, ej_work_report)
     \<and> (\<exists>r. historial_acciones ej_work_report = historial_acciones ej_work @ [r])
     \<and> historial_deshacer ej_work_report = historial_deshacer ej_work)
   \<and> (\<exists>m'. eliminarTarea 1 ''Work'' ej_work_report = Inr (TareaEliminada, m')
     \<and> (\<exists>r. historial_acciones m' = historial_acciones ej_work_report @ [r])
     \<and> historial_deshacer m' = historial_deshacer ej_work_report)
   \<and> (\<exists>m'. modificarTarea 1 ''Memo'' ''Q4'' 2 (Fecha 2 2 2031) ''Work'' ej_work_report
         = Inr (TareaModificada, m')
     \<and> (\<exists>r. historial_acciones m' = historial_acciones ej_work_report @ [r])
     \<and> historial_deshacer m' = historial_deshacer ej_work_report)
   \<and> (deshacer ej_work_report = Inr (AccionDeshecha, ej_work_deshecho)
     \<and> (\<exists>r. historial_acciones ej_work_report = historial_acciones ej_work_deshecho @ [r]
          \<and> historial_deshacer ej_work_deshecho = historial_deshacer ej_work_report @ [r]))
   \<and> (rehacer ej_work_deshecho = Inr (AccionRehecha, ej_work_report)
     \<and> (\<exists>r. historial_deshacer ej_work_deshecho = historial_deshacer ej_work_report @ [r]
          \<and> historial_acciones ej_work_report = historial_acciones ej_work_deshecho @ [r]))"
proof (intro conjI)
  show a: "agregarTarea ''Report'' ''Q3'' 1 (Fecha 1 1 2030) ''Work'' ej_work
             = Inr (TareaAgregada, ej_work_report)"
    by (simp add: operaciones_defs ejemplos_defs)
  from a historiales_emparejados
  show "\<exists>r. historial_acciones ej_work_report = historial_acciones ej_work @ [r]"
    and "historial_deshacer ej_work_report = historial_deshacer ej_work"
    by blast+
  have "\<exists>m'. eliminarTarea 1 ''Work'' ej_work_report = Inr (TareaEliminada, m')"
    by (simp add: operaciones_defs ejemplos_defs)
  with historiales_emparejados
  show "\<exists>m'. eliminarTarea 1 ''Work'' ej_work_report = Inr (TareaEliminada, m')
     \<and> (\<exists>r. historial_acciones m' = historial_acciones ej_work_report @ [r])
     \<and> historial_deshacer m' = historial_deshacer ej_work_report"
    by blast
  have "\<exists>m'. modificarTarea 1 ''Memo'' ''Q4'' 2 (Fecha 2 2 2031) ''Work'' ej_work_report
         = Inr (TareaModificada, m')"
    by (simp add: operaciones_defs ejemplos_defs)
  with historiales_emparejados
  show "\<exists>m'. modificarTarea 1 ''Memo'' ''Q4'' 2 (Fecha 2 2 2031) ''Work'' ej_work_report
         = Inr (TareaModificada, m')
     \<and> (\<exists>r. historial_acciones m' = historial_acciones ej_work_report @ [r])
     \<and> historial_deshacer m' = historial_deshacer ej_work_report"
    by blast
  show d: "deshacer ej_work_report = Inr (AccionDeshecha, ej_work_deshecho)"
    by (simp add: operaciones_defs ejemplos_defs)
  from d historiales_emparejados
  show "\<exists>r. historial_acciones ej_work_report = historial_acciones ej_work_deshecho @ [r]
          \<and> historial_deshacer ej_work_deshecho = historial_deshacer ej_work_report @ [r]"
    by blast
  show r: "rehacer ej_work_deshecho = Inr (AccionRehecha, ej_work_report)"
    by (simp add: operaciones_defs ejemplos_defs)
  from r historiales_emparejados
  show "\<exists>r. historial_deshacer ej_work_deshecho = historial_deshacer ej_work_report @ [r]
          \<and> historial_acciones ej_work_report = historial_acciones ej_work_deshecho @ [r]"
    by blast
qed

section \<open>References into the forest\<close>

text \<open>
  Reading through a reference after a write through a reference: at or below the written
  category the read sees what the write put there; anywhere else the category read has the
  fields it had.
\<close>

lemma propios_simps [simp]:
  "propios (Categoria i n ss u t) = (i, n, u, t)"
  by (simp add: propios_def)

lemma deref_nodo_escribir_bajo:
  "deref_nodo (escribir_nodo f q c) (q @ r) =
     (case deref_nodo c q of None \<Rightarrow> None | Some c0 \<Rightarrow> deref_nodo (f c0) r)"
  by (induction q arbitrary: c) auto

lemma deref_nodo_escribir_fuera:
  "\<not> prefix q p \<Longrightarrow>
     map_option propios (deref_nodo (escribir_nodo f q c) p) = map_option propios (deref_nodo c p)"
proof (induction q arbitrary: c p)
  case Nil
  then show ?case by simp
next
  case (Cons k q)
  show ?case
  proof (cases p)
    case Nil
    then show ?thesis by (simp add: propios_def)
  next
    case (Cons j r)
    with Cons.prems have "j \<noteq> k \<or> \<not> prefix q r" by auto
    with Cons show ?thesis
      using Cons.IH [of r "subcategorias c ! k"] by (auto simp: nth_list_update)
  qed
qed

lemma deref_nodo_anexo:
  "deref_nodo c (q @ r) =
     (case deref_nodo c q of None \<Rightarrow> None | Some c0 \<Rightarrow> deref_nodo c0 r)"
  by (induction q arbitrary: c) auto

lemma deref_anexo:
  "deref cs (q @ r) =
     (case deref cs q of None \<Rightarrow> (if q = [] then deref cs r else None)
      | Some c0 \<Rightarrow> deref_nodo c0 r)"
proof (cases q)
  case Nil
  then show ?thesis by simp
next
  case (Cons k q0)
  then show ?thesis by (simp add: deref_nodo_anexo)
qed

lemma deref_escribir_bajo:
  "deref (escribir f q cs) (q @ r) =
     (case deref cs q of None \<Rightarrow> deref cs (q @ r) | Some c0 \<Rightarrow> deref_nodo (f c0) r)"
proof (cases q)
  case Nil
  then show ?thesis by simp
next
  case (Cons k q0)
  have "deref_nodo c q0 = None \<Longrightarrow> deref_nodo c (q0 @ r) = None" for c
    by (simp add: deref_nodo_anexo)
  with Cons show ?thesis
    by (auto simp: deref_nodo_escribir_bajo split: option.splits)
qed

lemma deref_escribir_fuera:
  "\<not> prefix q p \<Longrightarrow>
     map_option propios (deref (escribir f q cs) p) = map_option propios (deref cs p)"
proof (cases q)
  case Nil
  assume "\<not> prefix q p"
  with Nil show ?thesis by simp
next
  case (Cons k q0)
  assume np: "\<not> prefix q p"
  show ?thesis
  proof (cases p)
    case Nil
    then show ?thesis by simp
  next
    case c2: (Cons j r)
    with Cons np have "j \<noteq> k \<or> \<not> prefix q0 r" by auto
    with Cons c2 show ?thesis
      by (auto simp: nth_list_update deref_nodo_escribir_fuera)
  qed
qed

lemma deref_escribir_mismo:
  "deref (escribir f q cs) q = map_option f (deref cs q)"
  using deref_escribir_bajo [of f q cs "[]"] by (simp split: option.splits)

lemma deref_nodo_conserva:
  "conserva_subcategorias f \<Longrightarrow> r \<noteq> [] \<Longrightarrow> deref_nodo (f c) r = deref_nodo c r"
  by (cases r) (auto simp: conserva_subcategorias_def)

lemma deref_escribir_otro:
  assumes "conserva_subcategorias f" and "p \<noteq> q"
  shows "map_option propios (deref (escribir f q cs) p) = map_option propios (deref cs p)"
proof (cases "prefix q p")
  case False
  then show ?thesis by (rule deref_escribir_fuera)
next
  case True
  then obtain r where r: "p = q @ r" by (auto simp: prefix_def)
  with assms have "r \<noteq> []" by auto
  have "deref (escribir f q cs) p = deref cs p"
  proof (cases "deref cs q")
    case None
    with r show ?thesis by (simp add: deref_escribir_bajo)
  next
    case (Some c0)
    with r have "deref (escribir f q cs) p = deref_nodo (f c0) r"
      by (simp add: deref_escribir_bajo)
    also have "\<dots> = deref_nodo c0 r"
      using assms(1) \<open>r \<noteq> []\<close> by (rule deref_nodo_conserva)
    also have "\<dots> = deref cs p"
      using Some r by (simp add: deref_anexo)
    finally show ?thesis .
  qed
  then show ?thesis by simp
qed

lemma conserva_con_tareas [simp]: "conserva_subcategorias (con_tareas g)"
  by (simp add: conserva_subcategorias_def con_tareas_def)

lemma conserva_con_tareasUrgentes [simp]: "conserva_subcategorias (con_tareasUrgentes g)"
  by (simp add: conserva_subcategorias_def con_tareasUrgentes_def)

section \<open>Lookup of a category\<close>

lemma find_anexo:
  "List.find P (xs @ ys) = (case List.find P xs of Some x \<Rightarrow> Some x | None \<Rightarrow> List.find P ys)"
  by (induction xs) auto

lemma find_prefijado:
  "List.find (\<lambda>(p, c). Q c) (map (\<lambda>(p, c). (f p, c)) xs)
     = map_option (\<lambda>(p, c). (f p, c)) (List.find (\<lambda>(p, c). Q c) xs)"
  by (induction xs) auto

lemma encontrarCategoriaEnSubcategorias_eq:
  "encontrarCategoriaEnSubcategorias c i n =
     (if coincide c i n then Some ([], c) else bucle_subcategorias (subcategorias c) 0 i n)"
  by (cases c) simp

lemma preorden_nodo_eq: "preorden_nodo c = ([], c) # preorden_lista (subcategorias c) 0"
  by (cases c) simp

lemma busqueda_es_preorden:
  "encontrarCategoriaEnSubcategorias c i n = List.find (\<lambda>(p, c). coincide c i n) (preorden_nodo c)"
  "bucle_subcategorias cs k i n = List.find (\<lambda>(p, c). coincide c i n) (preorden_lista cs k)"
proof (induction c i n and cs k i n rule: encontrarCategoriaEnSubcategorias_bucle_subcategorias.induct)
  case (1 ci cn subs urg ts i n)
  then show ?case by simp
next
  case (2 k i n)
  then show ?case by simp
next
  case (3 s ss k i n)
  then show ?case
    by (simp add: find_anexo find_prefijado split: option.splits)
qed

lemma bucle_categorias_es_preorden:
  "bucle_categorias cs k i n = List.find (\<lambda>(p, c). coincide c i n) (preorden_lista cs k)"
proof (induction cs arbitrary: k)
  case Nil
  then show ?case by simp
next
  case (Cons c cs)
  show ?case
  proof (cases "coincide c i n")
    case True
    then show ?thesis by (simp add: preorden_nodo_eq)
  next
    case False
    then show ?thesis
      using Cons.IH [of "Suc k"]
      by (simp add: preorden_nodo_eq find_anexo find_prefijado busqueda_es_preorden(2)
               split: option.splits)
  qed
qed

lemma preorden_deref_nodo:
  "(p, d) \<in> set (preorden_nodo c) \<longleftrightarrow> deref_nodo c p = Some d"
  "(p, d) \<in> set (preorden_lista cs k) \<longleftrightarrow>
     (\<exists>j q. p = (k + j) # q \<and> j < length cs \<and> deref_nodo (cs ! j) q = Some d)"
proof (induction c and cs k arbitrary: p d and p d rule: preorden_nodo_preorden_lista.induct)
  case (1 ci cn subs urg ts)
  show ?case
  proof (cases p)
    case Nil
    then show ?thesis using 1 by auto
  next
    case (Cons a q)
    then show ?thesis using 1 by auto
  qed
next
  case (2 k)
  then show ?case by simp
next
  case (3 s ss k)
  show ?case (is "?L = ?R")
  proof
    assume ?L
    then have "(p, d) \<in> set (map (\<lambda>(p, c). (k # p, c)) (preorden_nodo s))
      \<or> (p, d) \<in> set (preorden_lista ss (Suc k))" by simp
    then show ?R
    proof (elim disjE)
      assume "(p, d) \<in> set (map (\<lambda>(p, c). (k # p, c)) (preorden_nodo s))"
      then obtain q where "p = k # q" "(q, d) \<in> set (preorden_nodo s)" by auto
      then have "p = (k + 0) # q \<and> 0 < length (s # ss) \<and> deref_nodo ((s # ss) ! 0) q = Some d"
        using 3 by simp
      then show ?thesis by blast
    next
      assume "(p, d) \<in> set (preorden_lista ss (Suc k))"
      then obtain j q where "p = (Suc k + j) # q" "j < length ss" "deref_nodo (ss ! j) q = Some d"
        using 3 by blast
      then have "p = (k + Suc j) # q \<and> Suc j < length (s # ss) \<and> deref_nodo ((s # ss) ! Suc j) q = Some d"
        by simp
      then show ?thesis by blast
    qed
  next
    assume ?R
    then obtain j q where jq: "p = (k + j) # q" "j < length (s # ss)" "deref_nodo ((s # ss) ! j) q = Some d"
      by blast
    show ?L
    proof (cases j)
      case 0
      with jq have "(q, d) \<in> set (preorden_nodo s)" using 3 by simp
      with jq 0 show ?thesis by force
    next
      case (Suc j')
      with jq have "(p, d) \<in> set (preorden_lista ss (Suc k))"
        using 3(2) [of p d] by auto
      then show ?thesis by simp
    qed
  qed
qed

lemma preorden_deref: "(p, d) \<in> set (preorden cs) \<longleftrightarrow> deref cs p = Some d"
proof (cases p)
  case Nil
  then show ?thesis by (simp add: preorden_def preorden_deref_nodo(2))
next
  case (Cons a q)
  then show ?thesis
    by (auto simp: preorden_def preorden_deref_nodo(2))
qed

lemma find_Some_pertenece:
  "List.find P xs = Some x \<Longrightarrow> x \<in> set xs \<and> P x"
  by (induction xs) (auto split: if_splits)

lemma encontrarCategoria_deref:
  assumes "encontrarCategoria m i n = Some (p, c)"
  shows "deref (categorias m) p = Some c" and "coincide c i n"
proof -
  from assms have f: "List.find (\<lambda>(p, c). coincide c i n) (preorden (categorias m)) = Some (p, c)"
    by (simp add: encontrarCategoria_def bucle_categorias_es_preorden preorden_def)
  then have "(p, c) \<in> set (preorden (categorias m))"
    by (auto dest: find_Some_pertenece)
  then show "deref (categorias m) p = Some c" by (simp add: preorden_deref)
  from f show "coincide c i n" by (auto dest: find_Some_pertenece)
qed

text \<open>
  C7. For every forest and every query (id, name), \<open>encontrarCategoria\<close> returns the
  first category, in depth-first pre-order, whose id is the id asked for or whose name is the
  name asked for; so a category that has the id is returned whatever its name. It returns
  \<open>None\<close> exactly when no category of the forest has the id or the name, and what it
  returns is a category of the forest.
\<close>

theorem encontrarCategoria_primera_en_preorden:
  "encontrarCategoria m i n
     = List.find (\<lambda>(p, c). Some (categoria_id c) = i \<or> Some (nombre c) = n)
         (preorden (categorias m))
   \<and> (encontrarCategoria m i n = None \<longleftrightarrow>
        \<not> (\<exists>p c. deref (categorias m) p = Some c \<and>
                  (Some (categoria_id c) = i \<or> Some (nombre c) = n)))
   \<and> (\<forall>p c. encontrarCategoria m i n = Some (p, c) \<longrightarrow>
        deref (categorias m) p = Some c \<and> (Some (categoria_id c) = i \<or> Some (nombre c) = n))"
proof (intro conjI allI impI)
  show e: "encontrarCategoria m i n
     = List.find (\<lambda>(p, c). Some (categoria_id c) = i \<or> Some (nombre c) = n)
         (preorden (categorias m))"
    by (simp add: encontrarCategoria_def bucle_categorias_es_preorden preorden_def coincide_def)
  show "encontrarCategoria m i n = None \<longleftrightarrow>
        \<not> (\<exists>p c. deref (categorias m) p = Some c \<and>
                  (Some (categoria_id c) = i \<or> Some (nombre c) = n))"
    unfolding e find_None_iff by (auto simp: preorden_deref)
next
  fix p c
  assume "encontrarCategoria m i n = Some (p, c)"
  then show "deref (categorias m) p = Some c"
    and "Some (categoria_id c) = i \<or> Some (nombre c) = n"
    using encontrarCategoria_deref [of m i n p c] by (simp_all add: coincide_def)
qed

theorem encontrarCategoria_primera_en_preorden_testigo:
  "map fst (preorden (categorias ej_bosque)) = [[0], [0, 0], [1]]
   \<and> encontrarCategoria ej_bosque (Some 3) (Some ''Urgent'') = Some ([0, 0], Categoria 2 ''Urgent'' [] [] [])
   \<and> deref (categorias ej_bosque) [0, 0] = Some (Categoria 2 ''Urgent'' [] [] [])
   \<and> encontrarCategoria ej_bosque (Some 3) (Some ''Work'')
        = Some ([0], Categoria 1 ''Work'' [Categoria 2 ''Urgent'' [] [] []] [] [])
   \<and> encontrarCategoria ej_bosque (Some 3) (Some ''Office'') = Some ([1], Categoria 3 ''Home'' [] [] [])
   \<and> encontrarCategoria ej_bosque (Some 4) (Some ''Office'') = None
   \<and> \<not> (\<exists>p c. deref (categorias ej_bosque) p = Some c \<and>
                  (Some (categoria_id c) = Some 4 \<or> Some (nombre c) = Some ''Office''))"
proof -
  note t = encontrarCategoria_primera_en_preorden
  have 1: "encontrarCategoria ej_bosque (Some 3) (Some ''Urgent'')
             = Some ([0, 0], Categoria 2 ''Urgent'' [] [] [])"
    using t [of ej_bosque "Some 3" "Some ''Urgent''", THEN conjunct1]
    by (simp add: ej_bosque_def preorden_def)
  have 2: "deref (categorias ej_bosque) [0, 0] = Some (Categoria 2 ''Urgent'' [] [] [])"
    using 1 t [of ej_bosque "Some 3" "Some ''Urgent''"] by blast
  have 3: "encontrarCategoria ej_bosque (Some 4) (Some ''Office'') = None"
    using t [of ej_bosque "Some 4" "Some ''Office''", THEN conjunct1]
    by (simp add: ej_bosque_def preorden_def)
  have 4: "\<not> (\<exists>p c. deref (categorias ej_bosque) p = Some c \<and>
                  (Some (categoria_id c) = Some 4 \<or> Some (nombre c) = Some ''Office''))"
    using 3 t [of ej_bosque "Some 4" "Some ''Office''"] by blast
  show ?thesis
    using 1 2 3 4 by (simp add: ej_bosque_def preorden_def encontrarCategoria_def coincide_def)
qed

section \<open>Task lists, read through references\<close>

lemma tareas_con_tareas [simp]: "tareas (con_tareas g c) = g (tareas c)"
  and tareasUrgentes_con_tareas [simp]: "tareasUrgentes (con_tareas g c) = tareasUrgentes c"
  and tareas_con_tareasUrgentes [simp]: "tareas (con_tareasUrgentes g c) = tareas c"
  and tareasUrgentes_con_tareasUrgentes [simp]: "tareasUrgentes (con_tareasUrgentes g c) = g (tareasUrgentes c)"
  by (simp_all add: con_tareas_def con_tareasUrgentes_def)

lemma buscar_tarea_Some:
  "buscar_tarea h ts i = Some a \<Longrightarrow> a \<in> set ts \<and> tarea_id (h ! a) = i"
  unfolding buscar_tarea_def by (drule find_Some_pertenece) simp

section \<open>Remove, then undo\<close>

text \<open>
  C6. For every category \<open>c\<close> found by its name and every successful
  \<open>eliminarTarea\<close> on it: the task removed is the first of the list with the id asked
  for; an immediately following \<open>deshacer\<close> succeeds and puts that task at the end of
  the list of \<open>c\<close>, not where it was, and the other tasks keep their order; the
  objects of the store are as before.
\<close>

theorem eliminar_deshacer_anexa_al_final:
  assumes enc: "encontrarCategoria m None (Some nom) = Some (p, c)"
    and el: "eliminarTarea i nom m = Inr (TareaEliminada, m1)"
  shows "\<exists>a m2. buscar_tarea (objetos m) (tareas c) i = Some a
           \<and> tareas_de m1 p = Some (remove1 a (tareas c))
           \<and> deshacer m1 = Inr (AccionDeshecha, m2)
           \<and> tareas_de m2 p = Some (remove1 a (tareas c) @ [a])
           \<and> objetos m2 = objetos m"
proof -
  from enc el obtain a where a: "buscar_tarea (objetos m) (tareas c) i = Some a"
    and m1: "m1 = m\<lparr>categorias := escribir (con_tareas (remove1 a)) p (categorias m),
                    historial_acciones := historial_acciones m @ [Eliminar a p]\<rparr>"
    by (auto simp: eliminarTarea_def split: option.splits)
  from enc have d: "deref (categorias m) p = Some c" by (rule encontrarCategoria_deref)
  have t1: "tareas_de m1 p = Some (remove1 a (tareas c))"
    by (simp add: m1 tareas_de_def deref_escribir_mismo d)
  let ?m2 = "m1\<lparr>historial_acciones := historial_acciones m,
                categorias := escribir (con_tareas (\<lambda>ts. ts @ [a])) p (categorias m1),
                historial_deshacer := historial_deshacer m @ [Eliminar a p]\<rparr>"
  have "deshacer m1 = Inr (AccionDeshecha, ?m2)"
    by (simp add: m1 deshacer_def anexar_a_def deref_escribir_mismo d)
  moreover have "tareas_de ?m2 p = Some (remove1 a (tareas c) @ [a])"
    by (simp add: m1 tareas_de_def deref_escribir_mismo d)
  moreover have "objetos ?m2 = objetos m"
    by (simp add: m1)
  ultimately show ?thesis using a t1 by blast
qed

theorem eliminar_deshacer_anexa_al_final_testigo:
  "encontrarCategoria ej_work_dos None (Some ''Work'') = Some ([0], Categoria 1 ''Work'' [] [] [0, 1])
   \<and> (\<exists>m1 m2. eliminarTarea 1 ''Work'' ej_work_dos = Inr (TareaEliminada, m1)
          \<and> tareas_de m1 [0] = Some [1]
          \<and> deshacer m1 = Inr (AccionDeshecha, m2)
          \<and> tareas_de m2 [0] = Some [1, 0]
          \<and> objetos m2 = [ej_report, ej_email])"
proof -
  have enc: "encontrarCategoria ej_work_dos None (Some ''Work'')
               = Some ([0], Categoria 1 ''Work'' [] [] [0, 1])"
    by (simp add: operaciones_defs ejemplos_defs)
  obtain m1 where el: "eliminarTarea 1 ''Work'' ej_work_dos = Inr (TareaEliminada, m1)"
    by (simp add: operaciones_defs ejemplos_defs)
  have b: "buscar_tarea (objetos ej_work_dos) (tareas (Categoria 1 ''Work'' [] [] [0, 1])) 1 = Some 0"
    by (simp add: operaciones_defs ejemplos_defs)
  from eliminar_deshacer_anexa_al_final [OF enc el] b
  have "\<exists>m2. tareas_de m1 [0] = Some [1]
          \<and> deshacer m1 = Inr (AccionDeshecha, m2)
          \<and> tareas_de m2 [0] = Some [1, 0]
          \<and> objetos m2 = [ej_report, ej_email]"
    by (auto simp: ej_work_dos_def)
  with enc el show ?thesis by blast
qed

section \<open>Processing an urgent task\<close>

text \<open>
  C10. When the category named exists and its urgent queue is not empty,
  \<open>procesarTareaUrgente\<close> takes the head of that queue and reports it, and nothing else
  changes: the category keeps its id, name and task list, every other category keeps its id,
  name, task list and urgent queue (and the forest has the same categories), and the store,
  the two history stacks and the two counters are as before. The task taken is therefore
  added to no list.
\<close>

theorem procesarTareaUrgente_marco:
  assumes enc: "encontrarCategoria m None (Some nom) = Some (p, c)"
    and cola: "tareasUrgentes c = a # resto"
  shows "\<exists>m1. procesarTareaUrgente nom m = Inr (ProcesandoTareaUrgente a, m1)
           \<and> propios_de m1 p = Some (categoria_id c, nombre c, resto, tareas c)
           \<and> (\<forall>p'. p' \<noteq> p \<longrightarrow> propios_de m1 p' = propios_de m p')
           \<and> objetos m1 = objetos m
           \<and> historial_acciones m1 = historial_acciones m
           \<and> historial_deshacer m1 = historial_deshacer m
           \<and> idCategoria m1 = idCategoria m
           \<and> idTarea m1 = idTarea m"
proof -
  let ?m1 = "m\<lparr>categorias := escribir (con_tareasUrgentes tl) p (categorias m)\<rparr>"
  from enc have d: "deref (categorias m) p = Some c" by (rule encontrarCategoria_deref)
  have "procesarTareaUrgente nom m = Inr (ProcesandoTareaUrgente a, ?m1)"
    using enc cola by (simp add: procesarTareaUrgente_def)
  moreover have "propios_de ?m1 p = Some (categoria_id c, nombre c, resto, tareas c)"
    using cola by (simp add: propios_de_def deref_escribir_mismo d propios_def con_tareasUrgentes_def)
  moreover have "\<forall>p'. p' \<noteq> p \<longrightarrow> propios_de ?m1 p' = propios_de m p'"
    by (simp add: propios_de_def deref_escribir_otro)
  ultimately show ?thesis by simp
qed

theorem procesarTareaUrgente_marco_testigo:
  "encontrarCategoria ej_cola None (Some ''Urgent'') = Some ([0, 0], Categoria 2 ''Urgent'' [] [1, 2] [])
   \<and> (\<exists>m1. procesarTareaUrgente ''Urgent'' ej_cola = Inr (ProcesandoTareaUrgente 1, m1)
         \<and> propios_de m1 [0, 0] = Some (2, ''Urgent'', [2], [])
         \<and> propios_de m1 [0] = Some (1, ''Work'', [], [0])
         \<and> propios_de m1 [1] = Some (3, ''Home'', [], [])
         \<and> objetos m1 = [ej_report, ej_email, ej_call]
         \<and> historial_acciones m1 = [Agregar 0 [0]]
         \<and> historial_deshacer m1 = []
         \<and> idCategoria m1 = 4
         \<and> idTarea m1 = 4)"
proof -
  have enc: "encontrarCategoria ej_cola None (Some ''Urgent'')
               = Some ([0, 0], Categoria 2 ''Urgent'' [] [1, 2] [])"
    by (simp add: operaciones_defs ejemplos_defs)
  have cola: "tareasUrgentes (Categoria 2 ''Urgent'' [] [1, 2] []) = 1 # [2]"
    by simp
  have a: "propios_de ej_cola [0] = Some (1, ''Work'', [], [0])"
    and b: "propios_de ej_cola [1] = Some (3, ''Home'', [], [])"
    by (simp_all add: propios_de_def ej_cola_def)
  from procesarTareaUrgente_marco [OF enc cola]
  obtain m1 where 1: "procesarTareaUrgente ''Urgent'' ej_cola = Inr (ProcesandoTareaUrgente 1, m1)"
    and 2: "propios_de m1 [0, 0] = Some (2, ''Urgent'', [2], [])"
    and 3: "\<forall>p'. p' \<noteq> [0, 0] \<longrightarrow> propios_de m1 p' = propios_de ej_cola p'"
    and 4: "objetos m1 = objetos ej_cola" "historial_acciones m1 = historial_acciones ej_cola"
      "historial_deshacer m1 = historial_deshacer ej_cola" "idCategoria m1 = idCategoria ej_cola"
      "idTarea m1 = idTarea ej_cola"
    by auto
  from 3 a b have "propios_de m1 [0] = Some (1, ''Work'', [], [0])"
    and "propios_de m1 [1] = Some (3, ''Home'', [], [])"
    by simp_all
  with enc 1 2 4 show ?thesis
    by (auto simp: ej_cola_def)
qed

section \<open>Every reachable manager is well formed\<close>

lemma propios_iguales:
  "propios c = propios d \<Longrightarrow>
     categoria_id c = categoria_id d \<and> nombre c = nombre d \<and>
     tareasUrgentes c = tareasUrgentes d \<and> tareas c = tareas d"
  by (simp add: propios_def)

lemma deref_escribir_conserva:
  assumes "conserva_subcategorias f" and "deref (escribir f q cs) p = Some c'"
  shows "\<exists>c0. deref cs p = Some c0 \<and> (if p = q then c' = f c0 else propios c' = propios c0)"
proof (cases "p = q")
  case True
  with assms(2) show ?thesis by (auto simp: deref_escribir_mismo)
next
  case False
  from deref_escribir_otro [OF assms(1) False, of cs] assms(2)
  obtain c0 where "deref cs p = Some c0" "propios c' = propios c0"
    by (cases "deref cs p") auto
  with False show ?thesis by simp
qed

lemma deref_hoja: "deref_nodo (Categoria i nm [] u t) r = Some c' \<Longrightarrow> c' = Categoria i nm [] u t"
  by (cases r) auto

lemma deref_escribir_subcategoria:
  assumes "deref (escribir (con_subcategorias (\<lambda>ss. ss @ [Categoria i nm [] [] []])) q cs) p = Some c'"
  shows "(\<exists>c0. deref cs p = Some c0 \<and> propios c' = propios c0) \<or> c' = Categoria i nm [] [] []"
proof (cases "prefix q p")
  case False
  from deref_escribir_fuera [OF False, of "con_subcategorias (\<lambda>ss. ss @ [Categoria i nm [] [] []])" cs]
    assms
  show ?thesis by (cases "deref cs p") auto
next
  case True
  then obtain r where r: "p = q @ r" by (auto simp: prefix_def)
  show ?thesis
  proof (cases "deref cs q")
    case None
    with assms r show ?thesis by (simp add: deref_escribir_bajo)
  next
    case (Some c1)
    with assms r
    have d: "deref_nodo (con_subcategorias (\<lambda>ss. ss @ [Categoria i nm [] [] []]) c1) r = Some c'"
      by (simp add: deref_escribir_bajo)
    show ?thesis
    proof (cases r)
      case Nil
      with d r Some show ?thesis by (auto simp: con_subcategorias_def propios_def)
    next
      case (Cons j r')
      show ?thesis
      proof (cases "j < length (subcategorias c1)")
        case True
        with d Cons have "deref_nodo c1 r = Some c'"
          by (simp add: con_subcategorias_def nth_append)
        with Some r have "deref cs p = Some c'" by (simp add: deref_anexo)
        then show ?thesis by simp
      next
        case False
        with d Cons have "deref_nodo (Categoria i nm [] [] []) r' = Some c'"
          by (auto simp: con_subcategorias_def nth_append split: if_splits)
        then show ?thesis by (auto dest: deref_hoja)
      qed
    qed
  qed
qed

lemma deref_anexar_categoria:
  assumes "deref (cs @ [Categoria i nm [] [] []]) p = Some c'"
  shows "deref cs p = Some c' \<or> c' = Categoria i nm [] [] []"
proof (cases p)
  case Nil
  with assms show ?thesis by simp
next
  case (Cons k r)
  with assms show ?thesis
    by (auto simp: nth_append dest: deref_hoja split: if_splits)
qed

lemma acotado_mono: "acotado k cs \<Longrightarrow> k \<le> k' \<Longrightarrow> acotado k' cs"
  by (fastforce simp: acotado_def)

lemma acotado_con_tareas:
  assumes "acotado k cs" and "\<And>ts. \<forall>a\<in>set ts. a < k \<Longrightarrow> \<forall>a\<in>set (g ts). a < k"
  shows "acotado k (escribir (con_tareas g) q cs)"
  unfolding acotado_def
proof (intro allI impI)
  fix p c'
  assume "deref (escribir (con_tareas g) q cs) p = Some c'"
  then obtain c0 where c0: "deref cs p = Some c0"
    and e: "if p = q then c' = con_tareas g c0 else propios c' = propios c0"
    using deref_escribir_conserva [of "con_tareas g" q cs p c'] by auto
  from assms(1) c0 have b: "\<forall>a\<in>set (tareas c0). a < k" by (simp add: acotado_def)
  show "\<forall>a\<in>set (tareas c'). a < k"
  proof (cases "p = q")
    case True
    with e assms(2) [OF b] show ?thesis by simp
  next
    case False
    with e b show ?thesis by (auto dest: propios_iguales)
  qed
qed

lemma acotado_con_tareasUrgentes:
  assumes "acotado k cs"
  shows "acotado k (escribir (con_tareasUrgentes g) q cs)"
  unfolding acotado_def
proof (intro allI impI)
  fix p c'
  assume "deref (escribir (con_tareasUrgentes g) q cs) p = Some c'"
  then obtain c0 where c0: "deref cs p = Some c0"
    and e: "if p = q then c' = con_tareasUrgentes g c0 else propios c' = propios c0"
    using deref_escribir_conserva [of "con_tareasUrgentes g" q cs p c'] by auto
  from assms(1) c0 have b: "\<forall>a\<in>set (tareas c0). a < k" by (simp add: acotado_def)
  from e have "tareas c' = tareas c0"
    by (cases "p = q") (auto dest: propios_iguales)
  with b show "\<forall>a\<in>set (tareas c'). a < k" by simp
qed

lemma acotado_subcategoria:
  assumes "acotado k cs"
  shows "acotado k (escribir (con_subcategorias (\<lambda>ss. ss @ [Categoria i nm [] [] []])) q cs)"
  unfolding acotado_def
proof (intro allI impI)
  fix p c'
  assume "deref (escribir (con_subcategorias (\<lambda>ss. ss @ [Categoria i nm [] [] []])) q cs) p = Some c'"
  then have "(\<exists>c0. deref cs p = Some c0 \<and> propios c' = propios c0) \<or> c' = Categoria i nm [] [] []"
    by (rule deref_escribir_subcategoria)
  with assms show "\<forall>a\<in>set (tareas c'). a < k"
    by (auto simp: acotado_def dest: propios_iguales)
qed

lemma acotado_anexar_categoria:
  assumes "acotado k cs"
  shows "acotado k (cs @ [Categoria i nm [] [] []])"
  unfolding acotado_def
proof (intro allI impI)
  fix p c'
  assume "deref (cs @ [Categoria i nm [] [] []]) p = Some c'"
  then have "deref cs p = Some c' \<or> c' = Categoria i nm [] [] []"
    by (rule deref_anexar_categoria)
  with assms show "\<forall>a\<in>set (tareas c'). a < k"
    by (auto simp: acotado_def)
qed

lemma valido_conserva:
  assumes "conserva_subcategorias f" and "deref cs p = Some c0"
  shows "\<exists>c'. deref (escribir f q cs) p = Some c'"
proof (cases "p = q")
  case True
  with assms(2) show ?thesis by (simp add: deref_escribir_mismo)
next
  case False
  from deref_escribir_otro [OF assms(1) False, of cs] assms(2)
  show ?thesis by (cases "deref (escribir f q cs) p") auto
qed

lemmas valido_con_tareas = valido_conserva [OF conserva_con_tareas]

lemmas valido_con_tareasUrgentes = valido_conserva [OF conserva_con_tareasUrgentes]

lemma deref_nodo_con_subcategorias:
  "deref_nodo c r = Some c0 \<Longrightarrow> \<exists>c'. deref_nodo (con_subcategorias (\<lambda>ss. ss @ [d]) c) r = Some c'"
  by (cases r) (auto simp: con_subcategorias_def nth_append split: if_splits)

lemma valido_subcategoria:
  assumes "deref cs p = Some c0"
  shows "\<exists>c'. deref (escribir (con_subcategorias (\<lambda>ss. ss @ [d])) q cs) p = Some c'"
proof (cases "prefix q p")
  case False
  from deref_escribir_fuera [OF False, of "con_subcategorias (\<lambda>ss. ss @ [d])" cs] assms
  show ?thesis by (cases "deref (escribir (con_subcategorias (\<lambda>ss. ss @ [d])) q cs) p") auto
next
  case True
  then obtain r where r: "p = q @ r" by (auto simp: prefix_def)
  show ?thesis
  proof (cases "deref cs q")
    case None
    with assms r show ?thesis by (simp add: deref_escribir_bajo)
  next
    case (Some c1)
    with assms r have "deref_nodo c1 r = Some c0" by (simp add: deref_anexo)
    then have "\<exists>c'. deref_nodo (con_subcategorias (\<lambda>ss. ss @ [d]) c1) r = Some c'"
      by (rule deref_nodo_con_subcategorias)
    with Some r show ?thesis by (simp add: deref_escribir_bajo)
  qed
qed

lemma valido_anexar_categoria:
  "deref cs p = Some c0 \<Longrightarrow> \<exists>c'. deref (cs @ [d]) p = Some c'"
  by (cases p) (auto simp: nth_append split: if_splits)

lemma map_tarea_id_update:
  "tarea_id t = tarea_id (h ! a) \<Longrightarrow> map tarea_id (h[a := t]) = map tarea_id h"
  by (cases "a < length h") (auto simp: list_eq_iff_nth_eq nth_list_update)

lemma ids_crecientes_nuevo:
  assumes "ids_crecientes m" and "objetos m1 = objetos m @ [t]" and "tarea_id t = idTarea m"
    and "idTarea m1 = idTarea m + 1"
  shows "ids_crecientes m1"
  using assms by (auto simp: ids_crecientes_def sorted_wrt_append)

lemma referencias_validas_I:
  assumes "referencias_validas m"
    and "length (objetos m) \<le> length (objetos m1)"
    and "\<And>p c0. deref (categorias m) p = Some c0 \<Longrightarrow> \<exists>c'. deref (categorias m1) p = Some c'"
    and "\<And>r. r \<in> set (historial_acciones m1) \<union> set (historial_deshacer m1) \<Longrightarrow>
            r \<in> set (historial_acciones m) \<union> set (historial_deshacer m) \<or>
            (tarea_de r < length (objetos m1) \<and>
             (\<exists>c0. deref (categorias m) (categoria_de r) = Some c0))"
  shows "referencias_validas m1"
  unfolding referencias_validas_def
proof
  fix r
  assume "r \<in> set (historial_acciones m1) \<union> set (historial_deshacer m1)"
  from assms(4) [OF this]
  have "tarea_de r < length (objetos m1) \<and> (\<exists>c0. deref (categorias m) (categoria_de r) = Some c0)"
  proof
    assume "r \<in> set (historial_acciones m) \<union> set (historial_deshacer m)"
    with assms(1)
    have "tarea_de r < length (objetos m)" and "deref (categorias m) (categoria_de r) \<noteq> None"
      unfolding referencias_validas_def by blast+
    with assms(2) show ?thesis by auto
  qed
  with assms(3)
  show "tarea_de r < length (objetos m1) \<and> deref (categorias m1) (categoria_de r) \<noteq> None"
    by auto
qed

lemma ids_crecientes_igual:
  assumes "ids_crecientes m" and "map tarea_id (objetos m1) = map tarea_id (objetos m)"
    and "idTarea m1 = idTarea m"
  shows "ids_crecientes m1"
proof -
  have "(\<forall>t\<in>set (objetos x). 0 < tarea_id t \<and> tarea_id t < k)
          = (\<forall>i\<in>set (map tarea_id (objetos x)). 0 < i \<and> i < k)" for x k
    by auto
  with assms show ?thesis
    unfolding ids_crecientes_def by metis
qed

lemma acotado_deref:
  "acotado k cs \<Longrightarrow> deref cs p = Some c \<Longrightarrow> a \<in> set (tareas c) \<Longrightarrow> a < k"
  by (auto simp: acotado_def)

lemma invariante_agregarCategoria:
  assumes "invariante m" and "agregarCategoria nom m = Inr (s, m1)"
  shows "invariante m1"
proof (cases "encontrarCategoria m None (Some nom)")
  case (Some a)
  with assms show ?thesis by (simp add: agregarCategoria_def)
next
  case None
  with assms(2) have m1: "m1 = m\<lparr>categorias := categorias m @ [Categoria (idCategoria m) nom [] [] []],
                 idCategoria := idCategoria m + 1\<rparr>"
    by (simp add: agregarCategoria_def)
  from assms(1) have "referencias_validas m1"
    unfolding invariante_def
    by (elim conjE, erule_tac referencias_validas_I) (auto simp: m1 intro: valido_anexar_categoria)
  with assms(1) show ?thesis
    unfolding m1 invariante_def
    by (auto simp: acotado_anexar_categoria ids_crecientes_def)
qed

lemma invariante_agregarSubcategoria:
  assumes "invariante m" and "agregarSubcategoria nom padre m = Inr (s, m1)"
  shows "invariante m1"
proof (cases "encontrarCategoria m None (Some padre)")
  case None
  with assms show ?thesis by (simp add: agregarSubcategoria_def)
next
  case (Some a)
  obtain p c where "a = (p, c)" by (cases a)
  with Some assms(2)
  have m1: "m1 = m\<lparr>categorias :=
                    escribir (con_subcategorias (\<lambda>ss. ss @ [Categoria (idCategoria m) nom [] [] []]))
                      p (categorias m),
                 idCategoria := idCategoria m + 1\<rparr>"
    by (simp add: agregarSubcategoria_def)
  from assms(1) have "referencias_validas m1"
    unfolding invariante_def
    by (elim conjE, erule_tac referencias_validas_I) (auto simp: m1 intro: valido_subcategoria)
  with assms(1) show ?thesis
    unfolding m1 invariante_def
    by (auto simp: acotado_subcategoria ids_crecientes_def)
qed

lemma invariante_agregarTarea:
  assumes "invariante m" and "agregarTarea t d pr f nom m = Inr (s, m1)"
  shows "invariante m1"
proof (cases "encontrarCategoria m None (Some nom)")
  case None
  with assms show ?thesis by (simp add: agregarTarea_def)
next
  case (Some a)
  obtain p c where a: "a = (p, c)" by (cases a)
  let ?n = "length (objetos m)"
  let ?cs = "escribir (con_tareas (\<lambda>ts. ts @ [?n])) p (categorias m)"
  from a Some assms(2)
  have m1: "m1 = m\<lparr>objetos := objetos m @
                     [\<lparr>tarea_id = idTarea m, titulo = t, descripcion = d,
                       prioridad = pr, fecha_vencimiento = f\<rparr>],
                  categorias := ?cs,
                  idTarea := idTarea m + 1,
                  historial_acciones := historial_acciones m @ [Agregar ?n p]\<rparr>"
    by (simp add: agregarTarea_def Let_def)
  from a Some have d: "deref (categorias m) p = Some c"
    by (simp add: encontrarCategoria_deref)
  from assms(1) have "acotado (Suc ?n) (categorias m)"
    by (auto simp: invariante_def intro: acotado_mono)
  then have 1: "acotado (Suc ?n) ?cs"
    by (rule acotado_con_tareas) auto
  have 2: "ids_crecientes m1"
  proof (rule ids_crecientes_nuevo)
    from assms(1) show "ids_crecientes m" by (simp add: invariante_def)
    show "objetos m1 = objetos m @ [\<lparr>tarea_id = idTarea m, titulo = t, descripcion = d,
                       prioridad = pr, fecha_vencimiento = f\<rparr>]"
      by (simp add: m1)
  qed (simp_all add: m1)
  from assms(1) d have 3: "referencias_validas m1"
    unfolding invariante_def
    by (elim conjE, erule_tac referencias_validas_I) (auto simp: m1 intro: valido_con_tareas valido_con_tareasUrgentes)
  from 1 2 3 show ?thesis by (simp add: invariante_def m1)
qed

lemma invariante_agregarTareaUrgente:
  assumes "invariante m" and "agregarTareaUrgente t d pr f nom m = Inr (s, m1)"
  shows "invariante m1"
proof (cases "encontrarCategoria m None (Some nom)")
  case None
  with assms show ?thesis by (simp add: agregarTareaUrgente_def)
next
  case (Some a)
  obtain p c where a: "a = (p, c)" by (cases a)
  let ?n = "length (objetos m)"
  let ?cs = "escribir (con_tareasUrgentes (\<lambda>q. q @ [?n])) p (categorias m)"
  from a Some assms(2)
  have m1: "m1 = m\<lparr>objetos := objetos m @
                     [\<lparr>tarea_id = idTarea m, titulo = t, descripcion = d,
                       prioridad = pr, fecha_vencimiento = f\<rparr>],
                  categorias := ?cs,
                  idTarea := idTarea m + 1\<rparr>"
    by (simp add: agregarTareaUrgente_def Let_def)
  from assms(1) have "acotado (Suc ?n) (categorias m)"
    by (auto simp: invariante_def intro: acotado_mono)
  then have 1: "acotado (Suc ?n) ?cs"
    by (rule acotado_con_tareasUrgentes)
  have 2: "ids_crecientes m1"
  proof (rule ids_crecientes_nuevo)
    from assms(1) show "ids_crecientes m" by (simp add: invariante_def)
    show "objetos m1 = objetos m @ [\<lparr>tarea_id = idTarea m, titulo = t, descripcion = d,
                       prioridad = pr, fecha_vencimiento = f\<rparr>]"
      by (simp add: m1)
  qed (simp_all add: m1)
  from assms(1) have 3: "referencias_validas m1"
    unfolding invariante_def
    by (elim conjE, erule_tac referencias_validas_I) (auto simp: m1 intro: valido_con_tareas valido_con_tareasUrgentes)
  from 1 2 3 show ?thesis by (simp add: invariante_def m1)
qed


lemma invariante_eliminarTarea:
  assumes "invariante m" and "eliminarTarea i nom m = Inr (s, m1)"
  shows "invariante m1"
proof (cases "encontrarCategoria m None (Some nom)")
  case None
  with assms show ?thesis by (simp add: eliminarTarea_def)
next
  case (Some x)
  obtain p c where x: "x = (p, c)" by (cases x)
  from x Some have d: "deref (categorias m) p = Some c"
    by (simp add: encontrarCategoria_deref)
  show ?thesis
  proof (cases "buscar_tarea (objetos m) (tareas c) i")
    case None
    with x Some assms show ?thesis by (simp add: eliminarTarea_def)
  next
    case (Some a)
    with x \<open>encontrarCategoria m None (Some nom) = Some x\<close> assms(2)
    have m1: "m1 = m\<lparr>categorias := escribir (con_tareas (remove1 a)) p (categorias m),
                      historial_acciones := historial_acciones m @ [Eliminar a p]\<rparr>"
      by (simp add: eliminarTarea_def)
    from Some have "a \<in> set (tareas c)" by (simp add: buscar_tarea_Some)
    with assms(1) d have a: "a < length (objetos m)"
      by (auto simp: invariante_def dest: acotado_deref)
    from assms(1) have "acotado (length (objetos m)) (categorias m)"
      by (simp add: invariante_def)
    then have 1: "acotado (length (objetos m)) (escribir (con_tareas (remove1 a)) p (categorias m))"
      by (rule acotado_con_tareas) (auto dest: notin_set_remove1)
    from assms(1) have 2: "ids_crecientes m1"
      unfolding invariante_def
      by (elim conjE, erule_tac ids_crecientes_igual) (simp_all add: m1)
    from assms(1) d a have 3: "referencias_validas m1"
      unfolding invariante_def
      by (elim conjE, erule_tac referencias_validas_I)
         (auto simp: m1 intro: valido_con_tareas)
    from 1 2 3 show ?thesis by (simp add: invariante_def m1)
  qed
qed

lemma invariante_modificarTarea:
  assumes "invariante m" and "modificarTarea i t d pr f nom m = Inr (s, m1)"
  shows "invariante m1"
proof (cases "encontrarCategoria m None (Some nom)")
  case None
  with assms show ?thesis by (simp add: modificarTarea_def)
next
  case (Some x)
  obtain p c where x: "x = (p, c)" by (cases x)
  from x Some have d: "deref (categorias m) p = Some c"
    by (simp add: encontrarCategoria_deref)
  show ?thesis
  proof (cases "buscar_tarea (objetos m) (tareas c) i")
    case None
    with x Some assms show ?thesis by (simp add: modificarTarea_def)
  next
    case (Some a)
    with x \<open>encontrarCategoria m None (Some nom) = Some x\<close> assms(2)
    have m1: "m1 = m\<lparr>objetos := (objetos m)[a :=
                          (objetos m ! a)\<lparr>titulo := t, descripcion := d,
                            prioridad := pr, fecha_vencimiento := f\<rparr>],
                       historial_acciones :=
                         historial_acciones m @ [Modificar (objetos m ! a) a p]\<rparr>"
      by (simp add: modificarTarea_def Let_def)
    from Some have "a \<in> set (tareas c)" by (simp add: buscar_tarea_Some)
    with assms(1) d have a: "a < length (objetos m)"
      by (auto simp: invariante_def dest: acotado_deref)
    from assms(1) have 1: "acotado (length (objetos m)) (categorias m)"
      by (simp add: invariante_def)
    from assms(1) have 2: "ids_crecientes m1"
      unfolding invariante_def
      by (elim conjE, erule_tac ids_crecientes_igual) (simp_all add: m1 map_tarea_id_update)
    from assms(1) d a have 3: "referencias_validas m1"
      unfolding invariante_def
      by (elim conjE, erule_tac referencias_validas_I) (auto simp: m1)
    from 1 2 3 show ?thesis by (simp add: invariante_def m1)
  qed
qed

lemma invariante_procesarTareaUrgente:
  assumes "invariante m" and "procesarTareaUrgente nom m = Inr (s, m1)"
  shows "invariante m1"
proof (cases "encontrarCategoria m None (Some nom)")
  case None
  with assms show ?thesis by (simp add: procesarTareaUrgente_def)
next
  case (Some x)
  obtain p c where x: "x = (p, c)" by (cases x)
  show ?thesis
  proof (cases "tareasUrgentes c")
    case Nil
    with x Some assms show ?thesis by (simp add: procesarTareaUrgente_def)
  next
    case (Cons a resto)
    with x Some assms(2)
    have m1: "m1 = m\<lparr>categorias := escribir (con_tareasUrgentes tl) p (categorias m)\<rparr>"
      by (simp add: procesarTareaUrgente_def)
    from assms(1) have "acotado (length (objetos m)) (categorias m)"
      by (simp add: invariante_def)
    then have 1: "acotado (length (objetos m)) (escribir (con_tareasUrgentes tl) p (categorias m))"
      by (rule acotado_con_tareasUrgentes)
    from assms(1) have 2: "ids_crecientes m1"
      unfolding invariante_def
      by (elim conjE, erule_tac ids_crecientes_igual) (simp_all add: m1)
    from assms(1) have 3: "referencias_validas m1"
      unfolding invariante_def
      by (elim conjE, erule_tac referencias_validas_I)
         (auto simp: m1 intro: valido_con_tareasUrgentes)
    from 1 2 3 show ?thesis by (simp add: invariante_def m1)
  qed
qed

lemma invariante_mostrarTareasUrgentes:
  assumes "invariante m" and "mostrarTareasUrgentes nom m = Inr (s, m1)"
  shows "invariante m1"
  using assms by (auto simp: mostrarTareasUrgentes_def split: option.splits if_splits)

lemma quitar_de_conserva:
  assumes "acotado (length (objetos m)) (categorias m)" and "ids_crecientes m"
    and "quitar_de a p m = Inr m2"
  shows "conservado m m2"
proof -
  from assms(3) have m2: "m2 = m\<lparr>categorias := escribir (con_tareas (remove1 a)) p (categorias m)\<rparr>"
    by (auto simp: quitar_de_def split: option.splits if_splits)
  from assms(1) have "acotado (length (objetos m)) (escribir (con_tareas (remove1 a)) p (categorias m))"
    by (rule acotado_con_tareas) (auto dest: notin_set_remove1)
  moreover from assms(2) have "ids_crecientes m2"
    by (rule ids_crecientes_igual) (simp_all add: m2)
  ultimately show ?thesis
    by (auto simp: conservado_def m2 intro: valido_con_tareas)
qed

lemma anexar_a_conserva:
  assumes "acotado (length (objetos m)) (categorias m)" and "ids_crecientes m"
    and "a < length (objetos m)" and "anexar_a a p m = Inr m2"
  shows "conservado m m2"
proof -
  from assms(4) have m2: "m2 = m\<lparr>categorias := escribir (con_tareas (\<lambda>ts. ts @ [a])) p (categorias m)\<rparr>"
    by (auto simp: anexar_a_def split: option.splits)
  from assms(1) have "acotado (length (objetos m)) (escribir (con_tareas (\<lambda>ts. ts @ [a])) p (categorias m))"
    by (rule acotado_con_tareas) (use assms(3) in auto)
  moreover from assms(2) have "ids_crecientes m2"
    by (rule ids_crecientes_igual) (simp_all add: m2)
  ultimately show ?thesis
    by (auto simp: conservado_def m2 intro: valido_con_tareas)
qed

lemma copiar_campos_conserva:
  assumes "acotado (length (objetos m)) (categorias m)" and "ids_crecientes m"
  shows "conservado m (copiar_campos t a m)"
proof -
  from assms(2) have "ids_crecientes (copiar_campos t a m)"
    by (rule ids_crecientes_igual) (simp_all add: copiar_campos_def map_tarea_id_update)
  with assms(1) show ?thesis
    by (auto simp: conservado_def copiar_campos_def)
qed

lemma revertir_conserva:
  assumes "acotado (length (objetos m)) (categorias m)" and "ids_crecientes m"
    and "tarea_de r < length (objetos m)" and "revertir r m = Inr m2"
  shows "conservado m m2"
  using assms
  by (cases r) (auto intro: quitar_de_conserva anexar_a_conserva copiar_campos_conserva)

lemma reaplicar_conserva:
  assumes "acotado (length (objetos m)) (categorias m)" and "ids_crecientes m"
    and "tarea_de r < length (objetos m)" and "reaplicar r m = Inr m2"
  shows "conservado m m2"
  using assms
  by (cases r) (auto intro: quitar_de_conserva anexar_a_conserva copiar_campos_conserva)

lemma invariante_deshacer:
  assumes "invariante m" and "deshacer m = Inr (s, m1)"
  shows "invariante m1"
proof (cases "historial_acciones m = []")
  case True
  with assms show ?thesis by (simp add: deshacer_def)
next
  case False
  let ?r = "last (historial_acciones m)"
  let ?m0 = "m\<lparr>historial_acciones := butlast (historial_acciones m)\<rparr>"
  from False assms(2) obtain m2 where rv: "revertir ?r ?m0 = Inr m2"
    and m1: "m1 = m2\<lparr>historial_deshacer := historial_deshacer m2 @ [?r]\<rparr>"
    by (auto simp: deshacer_def Let_def split: sum.splits)
  from False have rin: "?r \<in> set (historial_acciones m)" by simp
  with assms(1) have rt: "tarea_de ?r < length (objetos m)"
    and rc: "deref (categorias m) (categoria_de ?r) \<noteq> None"
    by (auto simp: invariante_def referencias_validas_def)
  from assms(1) rt have c: "conservado ?m0 m2"
    by (intro revertir_conserva [OF _ _ _ rv]) (auto simp: invariante_def ids_crecientes_def)
  from assms(1) have "referencias_validas m" by (simp add: invariante_def)
  then have "referencias_validas m1"
  proof (rule referencias_validas_I)
    show "length (objetos m) \<le> length (objetos m1)"
      using c by (simp add: conservado_def m1)
    show "\<exists>c'. deref (categorias m1) p = Some c'" if "deref (categorias m) p = Some c0" for p c0
      using c that by (auto simp: conservado_def m1)
    show "r \<in> set (historial_acciones m) \<union> set (historial_deshacer m) \<or>
            (tarea_de r < length (objetos m1) \<and>
             (\<exists>c0. deref (categorias m) (categoria_de r) = Some c0))"
      if "r \<in> set (historial_acciones m1) \<union> set (historial_deshacer m1)" for r
      using c that rin by (auto simp: conservado_def m1 dest: in_set_butlastD)
  qed
  moreover from c have "ids_crecientes m1"
    by (auto simp: conservado_def m1 intro: ids_crecientes_igual)
  moreover from c have "acotado (length (objetos m1)) (categorias m1)"
    unfolding conservado_def m1 by (elim conjE) simp
  ultimately show ?thesis
    by (simp add: invariante_def)
qed

lemma invariante_rehacer:
  assumes "invariante m" and "rehacer m = Inr (s, m1)"
  shows "invariante m1"
proof (cases "historial_deshacer m = []")
  case True
  with assms show ?thesis by (simp add: rehacer_def)
next
  case False
  let ?r = "last (historial_deshacer m)"
  let ?m0 = "m\<lparr>historial_deshacer := butlast (historial_deshacer m)\<rparr>"
  from False assms(2) obtain m2 where rv: "reaplicar ?r ?m0 = Inr m2"
    and m1: "m1 = m2\<lparr>historial_acciones := historial_acciones m2 @ [?r]\<rparr>"
    by (auto simp: rehacer_def Let_def split: sum.splits)
  from False have rin: "?r \<in> set (historial_deshacer m)" by simp
  with assms(1) have rt: "tarea_de ?r < length (objetos m)"
    and rc: "deref (categorias m) (categoria_de ?r) \<noteq> None"
    by (auto simp: invariante_def referencias_validas_def)
  from assms(1) rt have c: "conservado ?m0 m2"
    by (intro reaplicar_conserva [OF _ _ _ rv]) (auto simp: invariante_def ids_crecientes_def)
  from assms(1) have "referencias_validas m" by (simp add: invariante_def)
  then have "referencias_validas m1"
  proof (rule referencias_validas_I)
    show "length (objetos m) \<le> length (objetos m1)"
      using c by (simp add: conservado_def m1)
    show "\<exists>c'. deref (categorias m1) p = Some c'" if "deref (categorias m) p = Some c0" for p c0
      using c that by (auto simp: conservado_def m1)
    show "r \<in> set (historial_acciones m) \<union> set (historial_deshacer m) \<or>
            (tarea_de r < length (objetos m1) \<and>
             (\<exists>c0. deref (categorias m) (categoria_de r) = Some c0))"
      if "r \<in> set (historial_acciones m1) \<union> set (historial_deshacer m1)" for r
      using c that rin by (auto simp: conservado_def m1 dest: in_set_butlastD)
  qed
  moreover from c have "ids_crecientes m1"
    by (auto simp: conservado_def m1 intro: ids_crecientes_igual)
  moreover from c have "acotado (length (objetos m1)) (categorias m1)"
    unfolding conservado_def m1 by (elim conjE) simp
  ultimately show ?thesis
    by (simp add: invariante_def)
qed

lemma deref_vacio [simp]: "deref [] p = None"
  by (cases p) simp_all

lemma invariante_inicial: "invariante manejador_inicial"
  by (simp add: invariante_def manejador_inicial_def acotado_def ids_crecientes_def
        referencias_validas_def)

lemma invariante_ejecutar:
  "invariante m \<Longrightarrow> ejecutar x m = Inr (s, m1) \<Longrightarrow> invariante m1"
  by (cases x)
     (auto intro: invariante_agregarCategoria invariante_agregarSubcategoria invariante_agregarTarea
        invariante_eliminarTarea invariante_modificarTarea invariante_deshacer invariante_rehacer
        invariante_agregarTareaUrgente invariante_procesarTareaUrgente
        invariante_mostrarTareasUrgentes)

lemma alcanzable_invariante: "alcanzable m \<Longrightarrow> invariante m"
  by (induction rule: alcanzable.induct) (auto intro: invariante_inicial invariante_ejecutar)

lemma correr_alcanzable:
  "alcanzable m \<Longrightarrow> correr xs m = Inr (ss, m1) \<Longrightarrow> alcanzable m1"
proof (induction xs arbitrary: m ss)
  case Nil
  then show ?case by simp
next
  case (Cons x xs)
  from Cons.prems(2) obtain s m0 ss0 where e: "ejecutar x m = Inr (s, m0)"
    and r: "correr xs m0 = Inr (ss0, m1)"
    by (auto split: sum.splits)
  from Cons.prems(1) e have "alcanzable m0" by (rule alcanzable.paso)
  then show ?case using r by (rule Cons.IH)
qed

text \<open>
  The category reference of a history tuple always leads to a category: the answer
  \<open>ReferenciaInvalida\<close> of the model is never given in a run from the initial manager.
\<close>

lemma sin_referencia_invalida:
  assumes "alcanzable m"
  shows "ejecutar x m \<noteq> Inl ReferenciaInvalida"
proof -
  from assms have inv: "referencias_validas m"
    using alcanzable_invariante by (simp add: invariante_def)
  have q: "quitar_de a p m0 \<noteq> Inl ReferenciaInvalida"
    if "deref (categorias m0) p \<noteq> None" for a p m0
    using that by (auto simp: quitar_de_def split: option.splits)
  have an: "anexar_a a p m0 \<noteq> Inl ReferenciaInvalida"
    if "deref (categorias m0) p \<noteq> None" for a p m0
    using that by (auto simp: anexar_a_def split: option.splits)
  have rv: "revertir r m0 \<noteq> Inl ReferenciaInvalida"
    and ra: "reaplicar r m0 \<noteq> Inl ReferenciaInvalida"
    if "deref (categorias m0) (categoria_de r) \<noteq> None" for r m0
    using that q an by (cases r; simp)+
  show ?thesis
  proof (cases x)
    case Deshacer
    show ?thesis
    proof (cases "historial_acciones m = []")
      case True
      with Deshacer show ?thesis by (simp add: deshacer_def)
    next
      case False
      then have "last (historial_acciones m) \<in> set (historial_acciones m)" by simp
      with inv have "deref (categorias m) (categoria_de (last (historial_acciones m))) \<noteq> None"
        by (auto simp: referencias_validas_def)
      then have "revertir (last (historial_acciones m))
                   (m\<lparr>historial_acciones := butlast (historial_acciones m)\<rparr>)
                 \<noteq> Inl ReferenciaInvalida"
        by (intro rv) simp
      then show ?thesis using Deshacer False
        by (auto simp: deshacer_def Let_def split: sum.splits)
    qed
  next
    case Rehacer
    show ?thesis
    proof (cases "historial_deshacer m = []")
      case True
      with Rehacer show ?thesis by (simp add: rehacer_def)
    next
      case False
      then have "last (historial_deshacer m) \<in> set (historial_deshacer m)" by simp
      with inv have "deref (categorias m) (categoria_de (last (historial_deshacer m))) \<noteq> None"
        by (auto simp: referencias_validas_def)
      then have "reaplicar (last (historial_deshacer m))
                   (m\<lparr>historial_deshacer := butlast (historial_deshacer m)\<rparr>)
                 \<noteq> Inl ReferenciaInvalida"
        by (intro ra) simp
      then show ?thesis using Rehacer False
        by (auto simp: rehacer_def Let_def split: sum.splits)
    qed
  qed (auto simp: agregarCategoria_def agregarSubcategoria_def agregarTarea_def eliminarTarea_def
         modificarTarea_def agregarTareaUrgente_def procesarTareaUrgente_def
         mostrarTareasUrgentes_def Let_def split: option.splits list.splits)
qed

section \<open>Add, then undo\<close>

text \<open>
  C5. In every manager a run can reach, for every category \<open>c\<close> found by its name and
  every successful \<open>agregarTarea\<close> to it: the new task is put at the end of the list
  of \<open>c\<close>, an immediately following \<open>deshacer\<close> succeeds, and after it the list
  of \<open>c\<close> is the list before the addition, the same tasks in the same order.
\<close>

theorem agregar_deshacer_restaura:
  assumes alc: "alcanzable m"
    and enc: "encontrarCategoria m None (Some nom) = Some (p, c)"
    and ag: "agregarTarea t d pr f nom m = Inr (TareaAgregada, m1)"
  shows "\<exists>m2. tareas_de m p = Some (tareas c)
           \<and> tareas_de m1 p = Some (tareas c @ [length (objetos m)])
           \<and> deshacer m1 = Inr (AccionDeshecha, m2)
           \<and> tareas_de m2 p = Some (tareas c)"
proof -
  let ?n = "length (objetos m)"
  from enc have d: "deref (categorias m) p = Some c" by (rule encontrarCategoria_deref)
  from alc have "acotado ?n (categorias m)"
    using alcanzable_invariante by (simp add: invariante_def)
  with d have nuevo: "?n \<notin> set (tareas c)"
    by (auto dest: acotado_deref)
  from enc ag
  have m1: "m1 = m\<lparr>objetos := objetos m @
                     [\<lparr>tarea_id = idTarea m, titulo = t, descripcion = d,
                       prioridad = pr, fecha_vencimiento = f\<rparr>],
                  categorias := escribir (con_tareas (\<lambda>ts. ts @ [?n])) p (categorias m),
                  idTarea := idTarea m + 1,
                  historial_acciones := historial_acciones m @ [Agregar ?n p]\<rparr>"
    by (simp add: agregarTarea_def Let_def)
  let ?m2 = "m1\<lparr>historial_acciones := historial_acciones m,
                categorias := escribir (con_tareas (remove1 ?n)) p (categorias m1),
                historial_deshacer := historial_deshacer m @ [Agregar ?n p]\<rparr>"
  have t0: "tareas_de m p = Some (tareas c)"
    by (simp add: tareas_de_def d)
  have t1: "tareas_de m1 p = Some (tareas c @ [?n])"
    by (simp add: m1 tareas_de_def deref_escribir_mismo d)
  have u: "deshacer m1 = Inr (AccionDeshecha, ?m2)"
    by (simp add: m1 deshacer_def quitar_de_def deref_escribir_mismo d)
  have "remove1 ?n (tareas c @ [?n]) = tareas c"
    using nuevo by (simp add: remove1_append)
  then have t2: "tareas_de ?m2 p = Some (tareas c)"
    by (simp add: m1 tareas_de_def deref_escribir_mismo d)
  from t0 t1 u t2 show ?thesis by blast
qed

lemma ej_work_report_alcanzable: "alcanzable ej_work_report"
proof -
  have "correr [AgregarCategoria ''Work'',
                AgregarTarea ''Report'' ''Q3'' 1 (Fecha 1 1 2030) ''Work''] manejador_inicial
          = Inr ([CategoriaAgregada, TareaAgregada], ej_work_report)"
    by (simp add: operaciones_defs ejemplos_defs)
  with alcanzable.inicial show ?thesis by (rule correr_alcanzable)
qed

theorem agregar_deshacer_restaura_testigo:
  "alcanzable ej_work_report
   \<and> encontrarCategoria ej_work_report None (Some ''Work'') = Some ([0], Categoria 1 ''Work'' [] [] [0])
   \<and> agregarTarea ''Email'' ''Inbox'' 3 (Fecha 1 1 2025) ''Work'' ej_work_report
        = Inr (TareaAgregada, ej_work_dos)
   \<and> tareas_de ej_work_report [0] = Some [0]
   \<and> tareas_de ej_work_dos [0] = Some [0, 1]
   \<and> (\<exists>m2. deshacer ej_work_dos = Inr (AccionDeshecha, m2) \<and> tareas_de m2 [0] = Some [0])"
proof -
  have enc: "encontrarCategoria ej_work_report None (Some ''Work'')
               = Some ([0], Categoria 1 ''Work'' [] [] [0])"
    by (simp add: operaciones_defs ejemplos_defs)
  have ag: "agregarTarea ''Email'' ''Inbox'' 3 (Fecha 1 1 2025) ''Work'' ej_work_report
              = Inr (TareaAgregada, ej_work_dos)"
    by (simp add: operaciones_defs ejemplos_defs)
  have n: "length (objetos ej_work_report) = 1"
    by (simp add: ejemplos_defs)
  from agregar_deshacer_restaura [OF ej_work_report_alcanzable enc ag]
  have "tareas_de ej_work_report [0] = Some [0]
        \<and> tareas_de ej_work_dos [0] = Some [0, 1]
        \<and> (\<exists>m2. deshacer ej_work_dos = Inr (AccionDeshecha, m2) \<and> tareas_de m2 [0] = Some [0])"
    by (auto simp: n)
  with ej_work_report_alcanzable enc ag show ?thesis by blast
qed

section \<open>Ids of tasks\<close>

text \<open>
  The store holds every \<open>Tareas\<close> object that \<open>agregarTarea\<close> and
  \<open>agregarTareaUrgente\<close> have made, in the order they were made, and keeps it when the
  task is removed from its list or taken from its queue; nothing assigns to the id of an
  object.
\<close>

lemma revertir_ids:
  "revertir r m = Inr m2 \<Longrightarrow>
     idTarea m2 = idTarea m \<and> map tarea_id (objetos m2) = map tarea_id (objetos m)"
  by (cases r)
     (auto simp: quitar_de_def anexar_a_def copiar_campos_def map_tarea_id_update
           split: option.splits if_splits)

lemma reaplicar_ids:
  "reaplicar r m = Inr m2 \<Longrightarrow>
     idTarea m2 = idTarea m \<and> map tarea_id (objetos m2) = map tarea_id (objetos m)"
  by (cases r)
     (auto simp: quitar_de_def anexar_a_def copiar_campos_def map_tarea_id_update
           split: option.splits if_splits)

lemma ejecutar_ids:
  assumes "ejecutar x m = Inr (s, m1)"
  shows "idTarea m \<le> idTarea m1 \<and> prefix (map tarea_id (objetos m)) (map tarea_id (objetos m1))"
proof (cases x)
  case Deshacer
  with assms show ?thesis
    by (auto simp: deshacer_def Let_def split: if_splits sum.splits dest!: revertir_ids)
next
  case Rehacer
  with assms show ?thesis
    by (auto simp: rehacer_def Let_def split: if_splits sum.splits dest!: reaplicar_ids)
next
  case (ModificarTarea i t d pr f nom)
  with assms show ?thesis
    by (auto simp: modificarTarea_def Let_def map_tarea_id_update split: option.splits)
qed (use assms in \<open>auto simp: agregarCategoria_def agregarSubcategoria_def agregarTarea_def
       eliminarTarea_def agregarTareaUrgente_def procesarTareaUrgente_def
       mostrarTareasUrgentes_def Let_def split: option.splits list.splits if_splits\<close>)

text \<open>
  C9. In every manager a run can reach: the ids of the objects of the store, in the order of
  creation, go strictly up, so they are pairwise distinct; they are positive and below
  \<open>idTarea\<close>; no operation lowers \<open>idTarea\<close> or changes or drops an id of the
  store; and \<open>agregarTarea\<close> and \<open>agregarTareaUrgente\<close> both give the new object
  the id \<open>idTarea\<close> and add one to that same counter. An id is therefore not given
  twice, also after the task that had it is removed.
\<close>

theorem ids_de_tareas_crecientes:
  assumes "alcanzable m"
  shows "sorted_wrt (<) (map tarea_id (objetos m))
       \<and> distinct (map tarea_id (objetos m))
       \<and> (\<forall>t\<in>set (objetos m). 0 < tarea_id t \<and> tarea_id t < idTarea m)
       \<and> (\<forall>x s m1. ejecutar x m = Inr (s, m1) \<longrightarrow>
             idTarea m \<le> idTarea m1 \<and>
             prefix (map tarea_id (objetos m)) (map tarea_id (objetos m1)))
       \<and> (\<forall>t d pr f nom m1. agregarTarea t d pr f nom m = Inr (TareaAgregada, m1) \<longrightarrow>
             map tarea_id (objetos m1) = map tarea_id (objetos m) @ [idTarea m] \<and>
             idTarea m1 = idTarea m + 1)
       \<and> (\<forall>t d pr f nom a m1. agregarTareaUrgente t d pr f nom m = Inr (TareaUrgenteAnadida a, m1) \<longrightarrow>
             map tarea_id (objetos m1) = map tarea_id (objetos m) @ [idTarea m] \<and>
             idTarea m1 = idTarea m + 1)"
proof (intro conjI allI impI ballI)
  from assms have i: "ids_crecientes m"
    using alcanzable_invariante by (simp add: invariante_def)
  then show s: "sorted_wrt (<) (map tarea_id (objetos m))"
    by (simp add: ids_crecientes_def)
  then show "distinct (map tarea_id (objetos m))"
    by (simp add: strict_sorted_iff)
next
  fix t
  assume "t \<in> set (objetos m)"
  with assms show "0 < tarea_id t" and "tarea_id t < idTarea m"
    using alcanzable_invariante [of m] by (auto simp: invariante_def ids_crecientes_def)
next
  fix x s m1
  assume "ejecutar x m = Inr (s, m1)"
  then show "idTarea m \<le> idTarea m1"
    and "prefix (map tarea_id (objetos m)) (map tarea_id (objetos m1))"
    by (simp_all add: ejecutar_ids)
next
  fix t d pr f nom m1
  assume "agregarTarea t d pr f nom m = Inr (TareaAgregada, m1)"
  then show "map tarea_id (objetos m1) = map tarea_id (objetos m) @ [idTarea m]"
    and "idTarea m1 = idTarea m + 1"
    by (auto simp: agregarTarea_def Let_def split: option.splits)
next
  fix t d pr f nom a m1
  assume "agregarTareaUrgente t d pr f nom m = Inr (TareaUrgenteAnadida a, m1)"
  then show "map tarea_id (objetos m1) = map tarea_id (objetos m) @ [idTarea m]"
    and "idTarea m1 = idTarea m + 1"
    by (auto simp: agregarTareaUrgente_def Let_def split: option.splits)
qed


lemma ej_cola_alcanzable: "alcanzable ej_cola"
proof -
  have "correr [AgregarCategoria ''Work'',
                AgregarSubcategoria ''Urgent'' ''Work'',
                AgregarCategoria ''Home'',
                AgregarTarea ''Report'' ''Q3'' 1 (Fecha 1 1 2030) ''Work'',
                AgregarTareaUrgente ''Email'' ''Inbox'' 3 (Fecha 1 1 2025) ''Urgent'',
                AgregarTareaUrgente ''Call'' ''Client'' 2 (Fecha 15 6 2026) ''Urgent'']
          manejador_inicial
          = Inr ([CategoriaAgregada, SubcategoriaAgregada, CategoriaAgregada, TareaAgregada,
                  TareaUrgenteAnadida 1, TareaUrgenteAnadida 2], ej_cola)"
    by (simp add: operaciones_defs ejemplos_defs)
  with alcanzable.inicial show ?thesis by (rule correr_alcanzable)
qed

theorem ids_de_tareas_crecientes_testigo:
  "alcanzable ej_cola
   \<and> map tarea_id (objetos ej_cola) = [1, 2, 3]
   \<and> sorted_wrt (<) (map tarea_id (objetos ej_cola))
   \<and> distinct (map tarea_id (objetos ej_cola))
   \<and> idTarea ej_cola = 4
   \<and> (\<exists>m1 m2. eliminarTarea 1 ''Work'' ej_cola = Inr (TareaEliminada, m1)
         \<and> idTarea m1 = 4
         \<and> agregarTarea ''Plan'' ''Q4'' 2 (Fecha 1 7 2030) ''Work'' m1 = Inr (TareaAgregada, m2)
         \<and> map tarea_id (objetos m2) = [1, 2, 3, 4]
         \<and> idTarea m2 = 5)"
proof -
  note t = ids_de_tareas_crecientes
  have ids: "map tarea_id (objetos ej_cola) = [1, 2, 3]" and c: "idTarea ej_cola = 4"
    by (simp_all add: ejemplos_defs)
  from t [OF ej_cola_alcanzable]
  have s: "sorted_wrt (<) (map tarea_id (objetos ej_cola))"
    and d: "distinct (map tarea_id (objetos ej_cola))"
    by blast+
  obtain m1 where el: "eliminarTarea 1 ''Work'' ej_cola = Inr (TareaEliminada, m1)"
    by (simp add: operaciones_defs ejemplos_defs)
  then have "ejecutar (EliminarTarea 1 ''Work'') ej_cola = Inr (TareaEliminada, m1)"
    by simp
  with ej_cola_alcanzable have a1: "alcanzable m1" by (rule alcanzable.paso)
  from el have o1: "objetos m1 = objetos ej_cola" and c1: "idTarea m1 = 4"
    and e1: "encontrarCategoria m1 None (Some ''Work'') \<noteq> None"
    by (auto simp: operaciones_defs ejemplos_defs)
  from e1 obtain m2 where ag: "agregarTarea ''Plan'' ''Q4'' 2 (Fecha 1 7 2030) ''Work'' m1
                        = Inr (TareaAgregada, m2)"
    by (auto simp: agregarTarea_def Let_def)
  with t [OF a1] have "map tarea_id (objetos m2) = map tarea_id (objetos m1) @ [idTarea m1]"
    and "idTarea m2 = idTarea m1 + 1"
    by blast+
  with o1 c1 ids have i2: "map tarea_id (objetos m2) = [1, 2, 3, 4]" and c2: "idTarea m2 = 5"
    by simp_all
  have "\<exists>m1 m2. eliminarTarea 1 ''Work'' ej_cola = Inr (TareaEliminada, m1)
         \<and> idTarea m1 = 4
         \<and> agregarTarea ''Plan'' ''Q4'' 2 (Fecha 1 7 2030) ''Work'' m1 = Inr (TareaAgregada, m2)
         \<and> map tarea_id (objetos m2) = [1, 2, 3, 4]
         \<and> idTarea m2 = 5"
    using el c1 ag i2 c2 by - (rule exI [of _ m1], rule exI [of _ m2], simp)
  with ej_cola_alcanzable ids s d c show ?thesis by simp
qed

section \<open>The urgent queue\<close>

text \<open>
  A write to a task list or to an urgent queue does not change where a lookup leads, and
  \<open>deshacer\<close> and \<open>rehacer\<close> write to task lists only. So on a script of undo,
  redo and urgent calls on one name the code answers as the first-in-first-out queue of
  \<open>cola_esperada\<close> does.
\<close>

lemma bucle_categorias_subcategorias:
  "bucle_categorias cs k i n = bucle_subcategorias cs k i n"
  by (simp add: bucle_categorias_es_preorden busqueda_es_preorden(2))

lemma bucle_subcategorias_update:
  assumes "map_option fst (encontrarCategoriaEnSubcategorias e i n)
             = map_option fst (encontrarCategoriaEnSubcategorias (ss ! j) i n)"
    and "j < length ss"
  shows "map_option fst (bucle_subcategorias (ss[j := e]) k i n)
           = map_option fst (bucle_subcategorias ss k i n)"
  using assms
proof (induction ss arbitrary: j k)
  case Nil
  then show ?case by simp
next
  case (Cons s ss)
  show ?case
  proof (cases j)
    case 0
    with Cons.prems show ?thesis
      by (cases "encontrarCategoriaEnSubcategorias e i n";
          cases "encontrarCategoriaEnSubcategorias s i n") auto
  next
    case (Suc j')
    with Cons.prems Cons.IH [of j' "Suc k"] show ?thesis
      by (auto split: option.splits)
  qed
qed

lemma conserva_identidad_coincide:
  "conserva_identidad f \<Longrightarrow> coincide (f c) i n = coincide c i n"
  by (simp add: conserva_identidad_def coincide_def)

lemma encontrar_escribir_nodo:
  assumes "conserva_identidad f"
  shows "map_option fst (encontrarCategoriaEnSubcategorias (escribir_nodo f q c) i n)
           = map_option fst (encontrarCategoriaEnSubcategorias c i n)"
proof (induction q arbitrary: c)
  case Nil
  from assms have "subcategorias (f c) = subcategorias c"
    by (simp add: conserva_identidad_def)
  with assms show ?case
    by (simp add: encontrarCategoriaEnSubcategorias_eq conserva_identidad_coincide)
next
  case (Cons k q)
  show ?case
  proof (cases "k < length (subcategorias c)")
    case False
    then show ?thesis by simp
  next
    case True
    have "coincide (Categoria (categoria_id c) (nombre c)
             ((subcategorias c)[k := escribir_nodo f q (subcategorias c ! k)])
             (tareasUrgentes c) (tareas c)) i n = coincide c i n"
      by (simp add: coincide_def)
    with True Cons.IH [of "subcategorias c ! k"] show ?thesis
      by (simp add: encontrarCategoriaEnSubcategorias_eq bucle_subcategorias_update)
  qed
qed

lemma encontrarCategoria_escribir:
  assumes "conserva_identidad f"
  shows "map_option fst (encontrarCategoria (m\<lparr>categorias := escribir f q (categorias m)\<rparr>) i n)
           = map_option fst (encontrarCategoria m i n)"
proof (cases q)
  case Nil
  then show ?thesis by (simp add: encontrarCategoria_def)
next
  case (Cons k q0)
  with assms show ?thesis
    by (simp add: encontrarCategoria_def bucle_categorias_subcategorias
          bucle_subcategorias_update encontrar_escribir_nodo)
qed

lemma conserva_identidad_con_tareas [simp]: "conserva_identidad (con_tareas g)"
  by (simp add: conserva_identidad_def con_tareas_def)

lemma conserva_identidad_con_tareasUrgentes [simp]: "conserva_identidad (con_tareasUrgentes g)"
  by (simp add: conserva_identidad_def con_tareasUrgentes_def)

lemma urgentes_escribir_con_tareas:
  "map_option tareasUrgentes (deref (escribir (con_tareas g) q cs) p)
     = map_option tareasUrgentes (deref cs p)"
proof (cases "p = q")
  case True
  then show ?thesis by (simp add: deref_escribir_mismo option.map_comp comp_def)
next
  case False
  have "map_option propios (deref (escribir (con_tareas g) q cs) p) = map_option propios (deref cs p)"
    using False by (simp add: deref_escribir_otro)
  then show ?thesis
    by (cases "deref (escribir (con_tareas g) q cs) p"; cases "deref cs p")
       (auto dest: propios_iguales)
qed


lemma quitar_de_forma:
  "quitar_de a p m = Inr m2 \<Longrightarrow>
     categorias m2 = escribir (con_tareas (remove1 a)) p (categorias m) \<and> objetos m2 = objetos m"
  by (auto simp: quitar_de_def split: option.splits if_splits)

lemma anexar_a_forma:
  "anexar_a a p m = Inr m2 \<Longrightarrow>
     categorias m2 = escribir (con_tareas (\<lambda>ts. ts @ [a])) p (categorias m) \<and>
     objetos m2 = objetos m"
  by (auto simp: anexar_a_def split: option.splits)

lemma copiar_campos_forma:
  "categorias (copiar_campos t a m) = escribir (con_tareas id) [] (categorias m) \<and>
   length (objetos (copiar_campos t a m)) = length (objetos m)"
  by (simp add: copiar_campos_def)

lemma revertir_forma:
  assumes "revertir r m = Inr m2"
  shows "\<exists>g q. categorias m2 = escribir (con_tareas g) q (categorias m)
           \<and> length (objetos m2) = length (objetos m)"
proof (cases r)
  case (Agregar a p)
  with assms show ?thesis by (auto dest!: quitar_de_forma)
next
  case (Eliminar a p)
  with assms show ?thesis by (auto dest!: anexar_a_forma)
next
  case (Modificar t a p)
  with assms have "categorias m2 = escribir (con_tareas id) [] (categorias m)
           \<and> length (objetos m2) = length (objetos m)"
    using copiar_campos_forma [of t a m] by auto
  then show ?thesis by blast
qed

lemma reaplicar_forma:
  assumes "reaplicar r m = Inr m2"
  shows "\<exists>g q. categorias m2 = escribir (con_tareas g) q (categorias m)
           \<and> length (objetos m2) = length (objetos m)"
proof (cases r)
  case (Agregar a p)
  with assms show ?thesis by (auto dest!: anexar_a_forma)
next
  case (Eliminar a p)
  with assms show ?thesis by (auto dest!: quitar_de_forma)
next
  case (Modificar t a p)
  with assms have "categorias m2 = escribir (con_tareas id) [] (categorias m)
           \<and> length (objetos m2) = length (objetos m)"
    using copiar_campos_forma [of t a m] by auto
  then show ?thesis by blast
qed

lemma vista_con_tareas:
  assumes "vista m nom p q n"
    and "categorias m1 = escribir (con_tareas g) r (categorias m)"
    and "length (objetos m1) = length (objetos m)"
  shows "vista m1 nom p q n"
proof -
  have "encontrarCategoria m1 None (Some nom)
          = encontrarCategoria (m\<lparr>categorias := escribir (con_tareas g) r (categorias m)\<rparr>) None (Some nom)"
    by (simp add: encontrarCategoria_def assms(2))
  then have "map_option fst (encontrarCategoria m1 None (Some nom))
          = map_option fst (encontrarCategoria m None (Some nom))"
    by (simp add: encontrarCategoria_escribir)
  with assms show ?thesis
    by (simp add: vista_def urgentes_de_def urgentes_escribir_con_tareas)
qed

lemma vista_deshacer:
  assumes "vista m nom p q n" and "deshacer m = Inr (s, m1)"
  shows "vista m1 nom p q n \<and> de_historial s"
proof (cases "historial_acciones m = []")
  case True
  with assms show ?thesis by (simp add: deshacer_def)
next
  case False
  let ?m0 = "m\<lparr>historial_acciones := butlast (historial_acciones m)\<rparr>"
  from False assms(2) obtain m2 where rv: "revertir (last (historial_acciones m)) ?m0 = Inr m2"
    and m1: "m1 = m2\<lparr>historial_deshacer := historial_deshacer m2 @ [last (historial_acciones m)]\<rparr>"
    and s: "s = AccionDeshecha"
    by (auto simp: deshacer_def Let_def split: sum.splits)
  from revertir_forma [OF rv] obtain g r
    where "categorias m2 = escribir (con_tareas g) r (categorias ?m0)"
      and "length (objetos m2) = length (objetos ?m0)"
    by blast
  then have "categorias m1 = escribir (con_tareas g) r (categorias m)"
    and "length (objetos m1) = length (objetos m)"
    by (simp_all add: m1)
  with assms(1) have "vista m1 nom p q n" by (rule vista_con_tareas)
  with s show ?thesis by simp
qed

lemma vista_rehacer:
  assumes "vista m nom p q n" and "rehacer m = Inr (s, m1)"
  shows "vista m1 nom p q n \<and> de_historial s"
proof (cases "historial_deshacer m = []")
  case True
  with assms show ?thesis by (simp add: rehacer_def)
next
  case False
  let ?m0 = "m\<lparr>historial_deshacer := butlast (historial_deshacer m)\<rparr>"
  from False assms(2) obtain m2 where rv: "reaplicar (last (historial_deshacer m)) ?m0 = Inr m2"
    and m1: "m1 = m2\<lparr>historial_acciones := historial_acciones m2 @ [last (historial_deshacer m)]\<rparr>"
    and s: "s = AccionRehecha"
    by (auto simp: rehacer_def Let_def split: sum.splits)
  from reaplicar_forma [OF rv] obtain g r
    where "categorias m2 = escribir (con_tareas g) r (categorias ?m0)"
      and "length (objetos m2) = length (objetos ?m0)"
    by blast
  then have "categorias m1 = escribir (con_tareas g) r (categorias m)"
    and "length (objetos m1) = length (objetos m)"
    by (simp_all add: m1)
  with assms(1) have "vista m1 nom p q n" by (rule vista_con_tareas)
  with s show ?thesis by simp
qed

lemma vista_encontrar:
  assumes "vista m nom p q n"
  obtains c where "encontrarCategoria m None (Some nom) = Some (p, c)"
    and "deref (categorias m) p = Some c" and "tareasUrgentes c = q"
proof -
  from assms obtain x where x: "encontrarCategoria m None (Some nom) = Some x" and "fst x = p"
    by (auto simp: vista_def)
  then obtain c where e: "encontrarCategoria m None (Some nom) = Some (p, c)"
    by (cases x) auto
  then have d: "deref (categorias m) p = Some c" by (rule encontrarCategoria_deref)
  with assms have "tareasUrgentes c = q" by (simp add: vista_def urgentes_de_def)
  with e d show ?thesis by (rule that)
qed

lemma encontrar_vista:
  "encontrarCategoria m None (Some nom) = Some (p, c) \<Longrightarrow>
     vista m nom p (tareasUrgentes c) (length (objetos m))"
  by (simp add: vista_def urgentes_de_def encontrarCategoria_deref)

lemma vista_agregarTareaUrgente:
  assumes "vista m nom p q n"
  shows "\<exists>m1. agregarTareaUrgente t d pr f nom m = Inr (TareaUrgenteAnadida n, m1)
           \<and> vista m1 nom p (q @ [n]) (Suc n)"
proof -
  from assms obtain c where e: "encontrarCategoria m None (Some nom) = Some (p, c)"
    and d: "deref (categorias m) p = Some c" and q: "tareasUrgentes c = q"
    by (rule vista_encontrar)
  from assms have n: "length (objetos m) = n" by (simp add: vista_def)
  let ?m1 = "m\<lparr>objetos := objetos m @
                     [\<lparr>tarea_id = idTarea m, titulo = t, descripcion = d,
                       prioridad = pr, fecha_vencimiento = f\<rparr>],
                  categorias := escribir (con_tareasUrgentes (\<lambda>q. q @ [n])) p (categorias m),
                  idTarea := idTarea m + 1\<rparr>"
  have 1: "agregarTareaUrgente t d pr f nom m = Inr (TareaUrgenteAnadida n, ?m1)"
    using e n by (simp add: agregarTareaUrgente_def Let_def)
  have "encontrarCategoria ?m1 None (Some nom)
          = encontrarCategoria
              (m\<lparr>categorias := escribir (con_tareasUrgentes (\<lambda>q. q @ [n])) p (categorias m)\<rparr>)
              None (Some nom)"
    by (simp add: encontrarCategoria_def)
  then have "map_option fst (encontrarCategoria ?m1 None (Some nom)) = Some p"
    using e by (simp add: encontrarCategoria_escribir)
  then have "vista ?m1 nom p (q @ [n]) (Suc n)"
    using d q n by (simp add: vista_def urgentes_de_def deref_escribir_mismo)
  with 1 show ?thesis by blast
qed

lemma vista_procesarTareaUrgente:
  assumes "vista m nom p q n"
  shows "\<exists>m1. procesarTareaUrgente nom m
                = Inr (case q of [] \<Rightarrow> NoHayTareasUrgentes | a # r \<Rightarrow> ProcesandoTareaUrgente a, m1)
           \<and> vista m1 nom p (tl q) n"
proof -
  from assms obtain c where e: "encontrarCategoria m None (Some nom) = Some (p, c)"
    and d: "deref (categorias m) p = Some c" and q: "tareasUrgentes c = q"
    by (rule vista_encontrar)
  show ?thesis
  proof (cases q)
    case Nil
    with e q assms show ?thesis by (auto simp: procesarTareaUrgente_def)
  next
    case (Cons a r)
    let ?m1 = "m\<lparr>categorias := escribir (con_tareasUrgentes tl) p (categorias m)\<rparr>"
    have 1: "procesarTareaUrgente nom m = Inr (ProcesandoTareaUrgente a, ?m1)"
      using e q Cons by (simp add: procesarTareaUrgente_def)
    have "map_option fst (encontrarCategoria ?m1 None (Some nom)) = Some p"
      using e by (simp add: encontrarCategoria_escribir)
    then have "vista ?m1 nom p (tl q) n"
      using d q assms by (simp add: vista_def urgentes_de_def deref_escribir_mismo)
    with 1 Cons show ?thesis by auto
  qed
qed

lemma guion_paso:
  assumes v: "vista m nom p q n" and g: "en_guion nom x" and e: "ejecutar x m = Inr (s, m1)"
  shows "\<exists>q' n'. vista m1 nom p q' n' \<and>
           (\<forall>xs. cola_esperada (x # xs) q n
                   = filter (\<lambda>s. \<not> de_historial s) [s] @ cola_esperada xs q' n')"
proof (cases x)
  case Deshacer
  with e have "deshacer m = Inr (s, m1)" by simp
  with v have "vista m1 nom p q n \<and> de_historial s" by (rule vista_deshacer)
  with Deshacer show ?thesis by auto
next
  case Rehacer
  with e have "rehacer m = Inr (s, m1)" by simp
  with v have "vista m1 nom p q n \<and> de_historial s" by (rule vista_rehacer)
  with Rehacer show ?thesis by auto
next
  case (AgregarTareaUrgente t d pr f c)
  with g have c: "c = nom" by simp
  from vista_agregarTareaUrgente [OF v, of t d pr f] e AgregarTareaUrgente c
  have "s = TareaUrgenteAnadida n \<and> vista m1 nom p (q @ [n]) (Suc n)" by auto
  with AgregarTareaUrgente show ?thesis by auto
next
  case (ProcesarTareaUrgente c)
  with g have c: "c = nom" by simp
  from vista_procesarTareaUrgente [OF v] e ProcesarTareaUrgente c
  have "s = (case q of [] \<Rightarrow> NoHayTareasUrgentes | a # r \<Rightarrow> ProcesandoTareaUrgente a)
          \<and> vista m1 nom p (tl q) n" by auto
  with ProcesarTareaUrgente show ?thesis by (cases q) auto
qed (use g in simp_all)

lemma guion_fifo_prefijo:
  assumes "vista m nom p q n" and "\<forall>x\<in>set xs. en_guion nom x"
  shows "prefix (filter (\<lambda>s. \<not> de_historial s) (salidas xs m)) (cola_esperada xs q n)"
  using assms
proof (induction xs arbitrary: m q n)
  case Nil
  then show ?case by simp
next
  case (Cons x xs)
  show ?case
  proof (cases "ejecutar x m")
    case (Inl e)
    then show ?thesis by simp
  next
    case (Inr r)
    obtain s m1 where r: "r = (s, m1)" by (cases r)
    from Cons.prems have "en_guion nom x" by simp
    from guion_paso [OF Cons.prems(1) this Inr [unfolded r]]
    obtain q' n' where v: "vista m1 nom p q' n'"
      and c: "cola_esperada (x # xs) q n
                = filter (\<lambda>s. \<not> de_historial s) [s] @ cola_esperada xs q' n'"
      by blast
    from Cons.prems have "\<forall>x\<in>set xs. en_guion nom x" by simp
    with v have "prefix (filter (\<lambda>s. \<not> de_historial s) (salidas xs m1)) (cola_esperada xs q' n')"
      by (rule Cons.IH)
    with Inr r show ?thesis unfolding c by simp
  qed
qed

lemma guion_fifo_completo:
  assumes "vista m nom p q n" and "\<forall>x\<in>set xs. en_guion nom x"
    and "correr xs m = Inr (ss, m')"
  shows "filter (\<lambda>s. \<not> de_historial s) ss = cola_esperada xs q n"
  using assms
proof (induction xs arbitrary: m q n ss)
  case Nil
  then show ?case by simp
next
  case (Cons x xs)
  from Cons.prems(3) obtain s m1 ss1 where e: "ejecutar x m = Inr (s, m1)"
    and r: "correr xs m1 = Inr (ss1, m')" and ss: "ss = s # ss1"
    by (auto split: sum.splits)
  from Cons.prems have "en_guion nom x" by simp
  from guion_paso [OF Cons.prems(1) this e]
  obtain q' n' where v: "vista m1 nom p q' n'"
    and c: "cola_esperada (x # xs) q n
              = filter (\<lambda>s. \<not> de_historial s) [s] @ cola_esperada xs q' n'"
    by blast
  from Cons.prems have "\<forall>x\<in>set xs. en_guion nom x" by simp
  with v have "filter (\<lambda>s. \<not> de_historial s) ss1 = cola_esperada xs q' n'"
    using r by (rule Cons.IH)
  with ss show ?case unfolding c by simp
qed

lemma cola_esperada_historial:
  "set us \<subseteq> {Deshacer, Rehacer} \<Longrightarrow> cola_esperada (us @ xs) q n = cola_esperada xs q n"
  by (induction us) auto

lemma cola_esperada_tres:
  assumes "set u4 \<subseteq> {Deshacer, Rehacer}" and "set u5 \<subseteq> {Deshacer, Rehacer}"
    and "3 \<le> length q"
  shows "cola_esperada (ProcesarTareaUrgente c # u4 @ ProcesarTareaUrgente c # u5 @
            [ProcesarTareaUrgente c]) q n
           = map ProcesandoTareaUrgente (take 3 q)"
proof -
  from assms(3) obtain a1 a2 a3 r where "q = a1 # a2 # a3 # r"
    by (cases q; cases "tl q"; cases "tl (tl q)") auto
  with assms(1,2) show ?thesis
    by (simp add: cola_esperada_historial)
qed

text \<open>
  Three urgent tasks are added to the category found by a name and then three are processed,
  with any calls of \<open>deshacer\<close> and \<open>rehacer\<close> between them. The messages of
  the six urgent calls of a run that ends are those of a queue: the three tasks added, then
  the first three of the queue the category had followed by the three added. What a run
  stopped by an exception has printed is a prefix of them. \<open>procesarTareaUrgente\<close> on
  an empty queue reports that there is nothing, and the manager is unchanged.
\<close>

lemma cola_urgente_fifo:
  assumes enc: "encontrarCategoria m None (Some nom) = Some (p, c)"
    and us: "set (u1 @ u2 @ u3 @ u4 @ u5) \<subseteq> {Deshacer, Rehacer}"
    and g: "guion =
              AgregarTareaUrgente t1 d1 pr1 f1 nom # u1 @
              AgregarTareaUrgente t2 d2 pr2 f2 nom # u2 @
              AgregarTareaUrgente t3 d3 pr3 f3 nom # u3 @
              ProcesarTareaUrgente nom # u4 @
              ProcesarTareaUrgente nom # u5 @
              [ProcesarTareaUrgente nom]"
    and n: "n = length (objetos m)"
    and esp: "esperadas =
              [TareaUrgenteAnadida n, TareaUrgenteAnadida (n + 1), TareaUrgenteAnadida (n + 2)] @
              map ProcesandoTareaUrgente (take 3 (tareasUrgentes c @ [n, n + 1, n + 2]))"
  shows "prefix (filter (\<lambda>s. \<not> de_historial s) (salidas guion m)) esperadas
       \<and> (\<forall>ss m'. correr guion m = Inr (ss, m') \<longrightarrow>
             filter (\<lambda>s. \<not> de_historial s) ss = esperadas)
       \<and> (tareasUrgentes c = [] \<longrightarrow>
             esperadas = [TareaUrgenteAnadida n, TareaUrgenteAnadida (n + 1),
                          TareaUrgenteAnadida (n + 2), ProcesandoTareaUrgente n,
                          ProcesandoTareaUrgente (n + 1), ProcesandoTareaUrgente (n + 2)] \<and>
             procesarTareaUrgente nom m = Inr (NoHayTareasUrgentes, m))"
proof -
  from enc n have v: "vista m nom p (tareasUrgentes c) n"
    by (simp add: encontrar_vista)
  from us g have eg: "\<forall>x\<in>set guion. en_guion nom x" by auto
  have "cola_esperada
          (ProcesarTareaUrgente nom # u4 @ ProcesarTareaUrgente nom # u5 @ [ProcesarTareaUrgente nom])
          (tareasUrgentes c @ [n, n + 1, n + 2]) (Suc (Suc (Suc n)))
        = map ProcesandoTareaUrgente (take 3 (tareasUrgentes c @ [n, n + 1, n + 2]))"
    by (rule cola_esperada_tres) (use us in auto)
  moreover from us have "cola_esperada guion (tareasUrgentes c) n
        = [TareaUrgenteAnadida n, TareaUrgenteAnadida (n + 1), TareaUrgenteAnadida (n + 2)] @
          cola_esperada
            (ProcesarTareaUrgente nom # u4 @ ProcesarTareaUrgente nom # u5 @ [ProcesarTareaUrgente nom])
            (tareasUrgentes c @ [n, n + 1, n + 2]) (Suc (Suc (Suc n)))"
    unfolding g
    by (simp add: cola_esperada_historial del: cola_esperada.simps(3))
  ultimately have "cola_esperada guion (tareasUrgentes c) n = esperadas"
    unfolding esp by (simp only:)
  with guion_fifo_prefijo [OF v eg] guion_fifo_completo [OF v eg]
  have 1: "prefix (filter (\<lambda>s. \<not> de_historial s) (salidas guion m)) esperadas"
    and 2: "\<forall>ss m'. correr guion m = Inr (ss, m') \<longrightarrow>
             filter (\<lambda>s. \<not> de_historial s) ss = esperadas"
    by auto
  have 3: "procesarTareaUrgente nom m = Inr (NoHayTareasUrgentes, m)" if "tareasUrgentes c = []"
    using enc that by (simp add: procesarTareaUrgente_def)
  from 1 2 3 esp show ?thesis by simp
qed


lemma cola_urgente_fifo_ejemplo:
  "encontrarCategoria ej_cola None (Some ''Home'') = Some ([1], Categoria 3 ''Home'' [] [] [])
   \<and> (\<exists>m'. correr
              [AgregarTareaUrgente ''Pay'' ''Rent'' 1 (Fecha 1 2 2027) ''Home'', Deshacer,
               AgregarTareaUrgente ''Fix'' ''Sink'' 2 (Fecha 2 2 2027) ''Home'', Rehacer,
               AgregarTareaUrgente ''Buy'' ''Milk'' 3 (Fecha 3 2 2027) ''Home'',
               ProcesarTareaUrgente ''Home'', Deshacer, Rehacer,
               ProcesarTareaUrgente ''Home'', Rehacer,
               ProcesarTareaUrgente ''Home'']
              ej_cola
            = Inr ([TareaUrgenteAnadida 3, AccionDeshecha, TareaUrgenteAnadida 4, AccionRehecha,
                    TareaUrgenteAnadida 5, ProcesandoTareaUrgente 3, AccionDeshecha, AccionRehecha,
                    ProcesandoTareaUrgente 4, NoHayAccionesParaRehacer, ProcesandoTareaUrgente 5],
                   m'))
   \<and> filter (\<lambda>s. \<not> de_historial s)
        [TareaUrgenteAnadida 3, AccionDeshecha, TareaUrgenteAnadida 4, AccionRehecha,
         TareaUrgenteAnadida 5, ProcesandoTareaUrgente 3, AccionDeshecha, AccionRehecha,
         ProcesandoTareaUrgente 4, NoHayAccionesParaRehacer, ProcesandoTareaUrgente 5]
       = [TareaUrgenteAnadida 3, TareaUrgenteAnadida 4, TareaUrgenteAnadida 5,
          ProcesandoTareaUrgente 3, ProcesandoTareaUrgente 4, ProcesandoTareaUrgente 5]
   \<and> procesarTareaUrgente ''Home'' ej_cola = Inr (NoHayTareasUrgentes, ej_cola)"
proof -
  let ?guion = "[AgregarTareaUrgente ''Pay'' ''Rent'' 1 (Fecha 1 2 2027) ''Home'', Deshacer,
               AgregarTareaUrgente ''Fix'' ''Sink'' 2 (Fecha 2 2 2027) ''Home'', Rehacer,
               AgregarTareaUrgente ''Buy'' ''Milk'' 3 (Fecha 3 2 2027) ''Home'',
               ProcesarTareaUrgente ''Home'', Deshacer, Rehacer,
               ProcesarTareaUrgente ''Home'', Rehacer,
               ProcesarTareaUrgente ''Home'']"
  let ?ss = "[TareaUrgenteAnadida 3, AccionDeshecha, TareaUrgenteAnadida 4, AccionRehecha,
         TareaUrgenteAnadida 5, ProcesandoTareaUrgente 3, AccionDeshecha, AccionRehecha,
         ProcesandoTareaUrgente 4, NoHayAccionesParaRehacer, ProcesandoTareaUrgente 5]"
  have enc: "encontrarCategoria ej_cola None (Some ''Home'')
               = Some ([1], Categoria 3 ''Home'' [] [] [])"
    by (simp add: operaciones_defs ejemplos_defs)
  have us: "set ([Deshacer] @ [Rehacer] @ [] @ [Deshacer, Rehacer] @ [Rehacer])
              \<subseteq> {Deshacer, Rehacer}"
    by simp
  obtain m' where run: "correr ?guion ej_cola = Inr (?ss, m')"
    by (simp add: operaciones_defs ejemplos_defs)
  have vacia: "tareasUrgentes (Categoria 3 ''Home'' [] [] []) = []" by simp
  note t = cola_urgente_fifo [where ?u1.0 = "[Deshacer]" and ?u2.0 = "[Rehacer]" and ?u3.0 = "[]"
      and ?u4.0 = "[Deshacer, Rehacer]" and ?u5.0 = "[Rehacer]"
      and ?t1.0 = "''Pay''" and ?d1.0 = "''Rent''" and ?pr1.0 = 1 and ?f1.0 = "Fecha 1 2 2027"
      and ?t2.0 = "''Fix''" and ?d2.0 = "''Sink''" and ?pr2.0 = 2 and ?f2.0 = "Fecha 2 2 2027"
      and ?t3.0 = "''Buy''" and ?d3.0 = "''Milk''" and ?pr3.0 = 3 and ?f3.0 = "Fecha 3 2 2027",
      OF enc us refl refl refl]
  have n: "length (objetos ej_cola) = 3" by (simp add: ejemplos_defs)
  from t run vacia
  have f: "filter (\<lambda>s. \<not> de_historial s) ?ss
       = [TareaUrgenteAnadida 3, TareaUrgenteAnadida 4, TareaUrgenteAnadida 5,
          ProcesandoTareaUrgente 3, ProcesandoTareaUrgente 4, ProcesandoTareaUrgente 5]"
    and e: "procesarTareaUrgente ''Home'' ej_cola = Inr (NoHayTareasUrgentes, ej_cola)"
    by (auto simp: n)
  from enc run f e show ?thesis by blast
qed

section \<open>Modify, undo, redo: every task\<close>

text \<open>
  What the run on Report and Memo shows holds in every manager a run can reach and for
  every task of a
  category: after a successful \<open>modificarTarea\<close>, \<open>deshacer\<close> puts the object
  back as it was before the modification, and a following \<open>rehacer\<close> leaves it so. The
  new values are in no tuple of the stacks, and \<open>rehacer\<close> does not bring them back.
\<close>

lemma modificar_deshacer_rehacer:
  assumes alc: "alcanzable m"
    and enc: "encontrarCategoria m None (Some nom) = Some (p, c)"
    and mo: "modificarTarea i nt nd np nf nom m = Inr (TareaModificada, m1)"
  shows "\<exists>a m2 m3. buscar_tarea (objetos m) (tareas c) i = Some a
           \<and> objetos m1 ! a = (objetos m ! a)\<lparr>titulo := nt, descripcion := nd,
                                    prioridad := np, fecha_vencimiento := nf\<rparr>
           \<and> deshacer m1 = Inr (AccionDeshecha, m2)
           \<and> objetos m2 ! a = objetos m ! a
           \<and> rehacer m2 = Inr (AccionRehecha, m3)
           \<and> objetos m3 ! a = objetos m ! a"
proof -
  from enc mo obtain a where a: "buscar_tarea (objetos m) (tareas c) i = Some a"
    and m1: "m1 = m\<lparr>objetos := (objetos m)[a :=
                          (objetos m ! a)\<lparr>titulo := nt, descripcion := nd,
                            prioridad := np, fecha_vencimiento := nf\<rparr>],
                     historial_acciones :=
                       historial_acciones m @ [Modificar (objetos m ! a) a p]\<rparr>"
    by (auto simp: modificarTarea_def Let_def split: option.splits)
  from enc have d: "deref (categorias m) p = Some c" by (rule encontrarCategoria_deref)
  from a have "a \<in> set (tareas c)" by (simp add: buscar_tarea_Some)
  with alc d have l: "a < length (objetos m)"
    using alcanzable_invariante [of m] by (auto simp: invariante_def dest: acotado_deref)
  let ?m2 = "copiar_campos (objetos m ! a) a (m1\<lparr>historial_acciones := historial_acciones m\<rparr>)
               \<lparr>historial_deshacer := historial_deshacer m @ [Modificar (objetos m ! a) a p]\<rparr>"
  let ?m3 = "copiar_campos (objetos m ! a) a (?m2\<lparr>historial_deshacer := historial_deshacer m\<rparr>)
               \<lparr>historial_acciones := historial_acciones m @ [Modificar (objetos m ! a) a p]\<rparr>"
  have 1: "objetos m1 ! a = (objetos m ! a)\<lparr>titulo := nt, descripcion := nd,
                                    prioridad := np, fecha_vencimiento := nf\<rparr>"
    using l by (simp add: m1)
  have 2: "deshacer m1 = Inr (AccionDeshecha, ?m2)"
    by (simp add: m1 deshacer_def copiar_campos_def)
  have 3: "objetos ?m2 ! a = objetos m ! a"
    using l by (simp add: m1 copiar_campos_def)
  have 4: "rehacer ?m2 = Inr (AccionRehecha, ?m3)"
    by (simp add: m1 rehacer_def copiar_campos_def)
  have 5: "objetos ?m3 ! a = objetos m ! a"
    using l by (simp add: m1 copiar_campos_def)
  from a 1 2 3 4 5 show ?thesis by blast
qed

section \<open>The data of the urgent tasks of a script\<close>

text \<open>
  In a manager a run can reach, the tuples of the two stacks refer to objects made before
  the script, so \<open>deshacer\<close> and \<open>rehacer\<close> do not write to the objects the
  script adds: when the run ends, the three tasks the queue gave out are in the store with
  the data and the ids they were added with.
\<close>

lemma agregarTareaUrgente_efecto:
  "agregarTareaUrgente t d pr f nom m = Inr (TareaUrgenteAnadida a, m1) \<Longrightarrow>
     objetos m1 = objetos m @
       [\<lparr>tarea_id = idTarea m, titulo = t, descripcion = d, prioridad = pr,
         fecha_vencimiento = f\<rparr>] \<and>
     idTarea m1 = idTarea m + 1 \<and>
     historial_acciones m1 = historial_acciones m \<and>
     historial_deshacer m1 = historial_deshacer m"
  by (auto simp: agregarTareaUrgente_def Let_def split: option.splits)

lemma procesarTareaUrgente_efecto:
  "procesarTareaUrgente nom m = Inr (s, m1) \<Longrightarrow>
     objetos m1 = objetos m \<and> idTarea m1 = idTarea m \<and>
     historial_acciones m1 = historial_acciones m \<and>
     historial_deshacer m1 = historial_deshacer m"
  by (auto simp: procesarTareaUrgente_def split: option.splits list.splits)

lemma revertir_datos:
  assumes "revertir r m = Inr m2" and "tarea_de r < k"
  shows "drop k (objetos m2) = drop k (objetos m) \<and> length (objetos m2) = length (objetos m)"
  using assms
  by (cases r)
     (auto simp: quitar_de_def anexar_a_def copiar_campos_def drop_update_cancel
           split: option.splits if_splits)

lemma reaplicar_datos:
  assumes "reaplicar r m = Inr m2" and "tarea_de r < k"
  shows "drop k (objetos m2) = drop k (objetos m) \<and> length (objetos m2) = length (objetos m)"
  using assms
  by (cases r)
     (auto simp: quitar_de_def anexar_a_def copiar_campos_def drop_update_cancel
           split: option.splits if_splits)

lemma deshacer_datos:
  assumes e: "deshacer m = Inr (s, m1)"
    and b: "\<forall>r\<in>set (historial_acciones m) \<union> set (historial_deshacer m). tarea_de r < k"
  shows "drop k (objetos m1) = drop k (objetos m) \<and> length (objetos m1) = length (objetos m)
       \<and> idTarea m1 = idTarea m
       \<and> (\<forall>r\<in>set (historial_acciones m1) \<union> set (historial_deshacer m1). tarea_de r < k)"
proof (cases "historial_acciones m = []")
  case True
  with e b show ?thesis by (simp add: deshacer_def)
next
  case False
  let ?r = "last (historial_acciones m)"
  let ?m0 = "m\<lparr>historial_acciones := butlast (historial_acciones m)\<rparr>"
  from False e obtain m2 where rv: "revertir ?r ?m0 = Inr m2"
    and m1: "m1 = m2\<lparr>historial_deshacer := historial_deshacer m2 @ [?r]\<rparr>"
    by (auto simp: deshacer_def Let_def split: sum.splits)
  from False have rin: "?r \<in> set (historial_acciones m)" by simp
  with b have rk: "tarea_de ?r < k" by blast
  from revertir_datos [OF rv rk] have d: "drop k (objetos m1) = drop k (objetos m)"
    and l: "length (objetos m1) = length (objetos m)"
    by (simp_all add: m1)
  from revertir_ids [OF rv] have i: "idTarea m1 = idTarea m" by (simp add: m1)
  from revertir_historial [OF rv]
  have h: "historial_acciones m1 = butlast (historial_acciones m)"
    "historial_deshacer m1 = historial_deshacer m @ [?r]"
    by (simp_all add: m1)
  have "\<forall>r\<in>set (historial_acciones m1) \<union> set (historial_deshacer m1). tarea_de r < k"
    unfolding h using b rk by (auto dest: in_set_butlastD)
  with d l i show ?thesis by simp
qed

lemma rehacer_datos:
  assumes e: "rehacer m = Inr (s, m1)"
    and b: "\<forall>r\<in>set (historial_acciones m) \<union> set (historial_deshacer m). tarea_de r < k"
  shows "drop k (objetos m1) = drop k (objetos m) \<and> length (objetos m1) = length (objetos m)
       \<and> idTarea m1 = idTarea m
       \<and> (\<forall>r\<in>set (historial_acciones m1) \<union> set (historial_deshacer m1). tarea_de r < k)"
proof (cases "historial_deshacer m = []")
  case True
  with e b show ?thesis by (simp add: rehacer_def)
next
  case False
  let ?r = "last (historial_deshacer m)"
  let ?m0 = "m\<lparr>historial_deshacer := butlast (historial_deshacer m)\<rparr>"
  from False e obtain m2 where rv: "reaplicar ?r ?m0 = Inr m2"
    and m1: "m1 = m2\<lparr>historial_acciones := historial_acciones m2 @ [?r]\<rparr>"
    by (auto simp: rehacer_def Let_def split: sum.splits)
  from False have rin: "?r \<in> set (historial_deshacer m)" by simp
  with b have rk: "tarea_de ?r < k" by blast
  from reaplicar_datos [OF rv rk] have d: "drop k (objetos m1) = drop k (objetos m)"
    and l: "length (objetos m1) = length (objetos m)"
    by (simp_all add: m1)
  from reaplicar_ids [OF rv] have i: "idTarea m1 = idTarea m" by (simp add: m1)
  from reaplicar_historial [OF rv]
  have h: "historial_deshacer m1 = butlast (historial_deshacer m)"
    "historial_acciones m1 = historial_acciones m @ [?r]"
    by (simp_all add: m1)
  have "\<forall>r\<in>set (historial_acciones m1) \<union> set (historial_deshacer m1). tarea_de r < k"
    unfolding h using b rk by (auto dest: in_set_butlastD)
  with d l i show ?thesis by simp
qed

lemma guion_paso_datos:
  assumes v: "vista m nom p q n" and g: "en_guion nom x" and e: "ejecutar x m = Inr (s, m1)"
    and k: "k \<le> length (objetos m)"
    and b: "\<forall>r\<in>set (historial_acciones m) \<union> set (historial_deshacer m). tarea_de r < k"
  shows "k \<le> length (objetos m1)
       \<and> (\<forall>r\<in>set (historial_acciones m1) \<union> set (historial_deshacer m1). tarea_de r < k)
       \<and> (\<forall>xs. drop k (objetos m) @ tareas_esperadas (x # xs) (idTarea m)
                  = drop k (objetos m1) @ tareas_esperadas xs (idTarea m1))"
proof (cases x)
  case Deshacer
  with e have "deshacer m = Inr (s, m1)" by simp
  from deshacer_datos [OF this b] k Deshacer show ?thesis by simp
next
  case Rehacer
  with e have "rehacer m = Inr (s, m1)" by simp
  from rehacer_datos [OF this b] k Rehacer show ?thesis by simp
next
  case (AgregarTareaUrgente t d pr f c)
  with g have c: "c = nom" by simp
  from vista_agregarTareaUrgente [OF v, of t d pr f] e AgregarTareaUrgente c
  have "agregarTareaUrgente t d pr f nom m = Inr (TareaUrgenteAnadida n, m1)" by auto
  from agregarTareaUrgente_efecto [OF this] k b AgregarTareaUrgente show ?thesis by simp
next
  case (ProcesarTareaUrgente c)
  with g e have "procesarTareaUrgente nom m = Inr (s, m1)" by simp
  from procesarTareaUrgente_efecto [OF this] k b ProcesarTareaUrgente show ?thesis by simp
qed (use g in simp_all)

lemma guion_datos:
  assumes "vista m nom p q n" and "\<forall>x\<in>set xs. en_guion nom x"
    and "correr xs m = Inr (ss, m')"
    and "k \<le> length (objetos m)"
    and "\<forall>r\<in>set (historial_acciones m) \<union> set (historial_deshacer m). tarea_de r < k"
  shows "drop k (objetos m') = drop k (objetos m) @ tareas_esperadas xs (idTarea m)"
  using assms
proof (induction xs arbitrary: m q n ss)
  case Nil
  then show ?case by simp
next
  case (Cons x xs)
  from Cons.prems(3) obtain s m1 ss1 where e: "ejecutar x m = Inr (s, m1)"
    and r: "correr xs m1 = Inr (ss1, m')"
    by (auto split: sum.splits)
  from Cons.prems have gx: "en_guion nom x" and gxs: "\<forall>x\<in>set xs. en_guion nom x" by simp_all
  from guion_paso [OF Cons.prems(1) gx e]
  obtain q' n' where v: "vista m1 nom p q' n'" by blast
  from guion_paso_datos [OF Cons.prems(1) gx e Cons.prems(4) Cons.prems(5)]
  have k1: "k \<le> length (objetos m1)"
    and b1: "\<forall>r\<in>set (historial_acciones m1) \<union> set (historial_deshacer m1). tarea_de r < k"
    and d: "drop k (objetos m) @ tareas_esperadas (x # xs) (idTarea m)
              = drop k (objetos m1) @ tareas_esperadas xs (idTarea m1)"
    by blast+
  from Cons.IH [OF v gxs r k1 b1] d show ?case by simp
qed

lemma tareas_esperadas_historial:
  "set us \<subseteq> {Deshacer, Rehacer} \<Longrightarrow> tareas_esperadas (us @ xs) i = tareas_esperadas xs i"
  by (induction us) auto


lemma cola_urgente_datos:
  assumes alc: "alcanzable m"
    and enc: "encontrarCategoria m None (Some nom) = Some (p, c)"
    and us: "set (u1 @ u2 @ u3 @ u4 @ u5) \<subseteq> {Deshacer, Rehacer}"
    and g: "guion =
              AgregarTareaUrgente t1 d1 pr1 f1 nom # u1 @
              AgregarTareaUrgente t2 d2 pr2 f2 nom # u2 @
              AgregarTareaUrgente t3 d3 pr3 f3 nom # u3 @
              ProcesarTareaUrgente nom # u4 @
              ProcesarTareaUrgente nom # u5 @
              [ProcesarTareaUrgente nom]"
    and run: "correr guion m = Inr (ss, m')"
  shows "drop (length (objetos m)) (objetos m')
           = [\<lparr>tarea_id = idTarea m, titulo = t1, descripcion = d1, prioridad = pr1,
                fecha_vencimiento = f1\<rparr>,
              \<lparr>tarea_id = idTarea m + 1, titulo = t2, descripcion = d2, prioridad = pr2,
                fecha_vencimiento = f2\<rparr>,
              \<lparr>tarea_id = idTarea m + 2, titulo = t3, descripcion = d3, prioridad = pr3,
                fecha_vencimiento = f3\<rparr>]"
proof -
  from enc have v: "vista m nom p (tareasUrgentes c) (length (objetos m))"
    by (rule encontrar_vista)
  from us g have eg: "\<forall>x\<in>set guion. en_guion nom x" by auto
  from alc have "referencias_validas m"
    using alcanzable_invariante by (simp add: invariante_def)
  then have b: "\<forall>r\<in>set (historial_acciones m) \<union> set (historial_deshacer m).
                  tarea_de r < length (objetos m)"
    by (simp add: referencias_validas_def)
  from guion_datos [OF v eg run le_refl b]
  have "drop (length (objetos m)) (objetos m') = tareas_esperadas guion (idTarea m)"
    by simp
  also from us have "\<dots> = [\<lparr>tarea_id = idTarea m, titulo = t1, descripcion = d1, prioridad = pr1,
                fecha_vencimiento = f1\<rparr>,
              \<lparr>tarea_id = idTarea m + 1, titulo = t2, descripcion = d2, prioridad = pr2,
                fecha_vencimiento = f2\<rparr>,
              \<lparr>tarea_id = idTarea m + 2, titulo = t3, descripcion = d3, prioridad = pr3,
                fecha_vencimiento = f3\<rparr>]"
    unfolding g by (simp add: tareas_esperadas_historial)
  finally show ?thesis .
qed

section \<open>The urgent queue and a stale redo\<close>

text \<open>
  C8. Three urgent tasks added to a category and then processed should come out in the order
  they went in, whatever calls of \<open>deshacer\<close> and \<open>rehacer\<close> come between them.
  The queue itself is first-in-first-out and undo and redo never write to it, but a
  \<open>rehacer\<close> between the calls can end the run: after a task is removed, the removal
  undone and the task removed again, the redo stack holds the first removal, and
  \<open>rehacer\<close> raises \<open>ValueError\<close> from \<open>categoria.tareas.remove(tarea)\<close>. In
  the first run below the exception comes after the first urgent task is added; the second
  line gives what had been printed by then, and no task is ever processed. The third run is
  the same without the \<open>rehacer\<close>: the three tasks come out in order, with their data
  in the store.
\<close>

theorem rehacer_obsoleto_interrumpe_cola_urgente:
  "correr [AgregarCategoria ''Work'',
           AgregarTarea ''Report'' ''Q3'' 1 (Fecha 1 1 2030) ''Work'',
           EliminarTarea 1 ''Work'',
           Deshacer,
           EliminarTarea 1 ''Work'',
           AgregarTareaUrgente ''Pay'' ''Rent'' 1 (Fecha 1 2 2027) ''Work'',
           Rehacer,
           AgregarTareaUrgente ''Fix'' ''Sink'' 2 (Fecha 2 2 2027) ''Work'',
           AgregarTareaUrgente ''Buy'' ''Milk'' 3 (Fecha 3 2 2027) ''Work'',
           ProcesarTareaUrgente ''Work'',
           ProcesarTareaUrgente ''Work'',
           ProcesarTareaUrgente ''Work'']
     manejador_inicial
   = Inl ValueError
 \<and> salidas [AgregarCategoria ''Work'',
           AgregarTarea ''Report'' ''Q3'' 1 (Fecha 1 1 2030) ''Work'',
           EliminarTarea 1 ''Work'',
           Deshacer,
           EliminarTarea 1 ''Work'',
           AgregarTareaUrgente ''Pay'' ''Rent'' 1 (Fecha 1 2 2027) ''Work'',
           Rehacer,
           AgregarTareaUrgente ''Fix'' ''Sink'' 2 (Fecha 2 2 2027) ''Work'',
           AgregarTareaUrgente ''Buy'' ''Milk'' 3 (Fecha 3 2 2027) ''Work'',
           ProcesarTareaUrgente ''Work'',
           ProcesarTareaUrgente ''Work'',
           ProcesarTareaUrgente ''Work'']
     manejador_inicial
   = [CategoriaAgregada, TareaAgregada, TareaEliminada, AccionDeshecha, TareaEliminada,
      TareaUrgenteAnadida 1]
 \<and> map_sum id (\<lambda>r. (fst r, objetos (snd r)))
     (correr [AgregarCategoria ''Work'',
           AgregarTarea ''Report'' ''Q3'' 1 (Fecha 1 1 2030) ''Work'',
           EliminarTarea 1 ''Work'',
           Deshacer,
           EliminarTarea 1 ''Work'',
           AgregarTareaUrgente ''Pay'' ''Rent'' 1 (Fecha 1 2 2027) ''Work'',
           AgregarTareaUrgente ''Fix'' ''Sink'' 2 (Fecha 2 2 2027) ''Work'',
           AgregarTareaUrgente ''Buy'' ''Milk'' 3 (Fecha 3 2 2027) ''Work'',
           ProcesarTareaUrgente ''Work'',
           ProcesarTareaUrgente ''Work'',
           ProcesarTareaUrgente ''Work'']
        manejador_inicial)
   = Inr ([CategoriaAgregada, TareaAgregada, TareaEliminada, AccionDeshecha, TareaEliminada,
           TareaUrgenteAnadida 1, TareaUrgenteAnadida 2, TareaUrgenteAnadida 3,
           ProcesandoTareaUrgente 1, ProcesandoTareaUrgente 2, ProcesandoTareaUrgente 3],
          [\<lparr>tarea_id = 1, titulo = ''Report'', descripcion = ''Q3'', prioridad = 1,
            fecha_vencimiento = Fecha 1 1 2030\<rparr>,
           \<lparr>tarea_id = 2, titulo = ''Pay'', descripcion = ''Rent'', prioridad = 1,
            fecha_vencimiento = Fecha 1 2 2027\<rparr>,
           \<lparr>tarea_id = 3, titulo = ''Fix'', descripcion = ''Sink'', prioridad = 2,
            fecha_vencimiento = Fecha 2 2 2027\<rparr>,
           \<lparr>tarea_id = 4, titulo = ''Buy'', descripcion = ''Milk'', prioridad = 3,
            fecha_vencimiento = Fecha 3 2 2027\<rparr>])"
  by (simp add: operaciones_defs)

end
